theory Spec2Isabelle
  imports Main "HOL-Library.Sublist" "HOL-Library.Log_Nat"
begin

section \<open>Python values used by the two scripts\<close>

text \<open>
  A Python \<^verbatim>\<open>str\<close> is a sequence of Unicode code points, a \<^verbatim>\<open>bytes\<close> or
  \<^verbatim>\<open>bytearray\<close> a sequence of octets.  String literals of the scripts are ASCII and
  are written with \<open>ascii\<close>.
\<close>

type_synonym pystr = "nat list"
type_synonym bytes = "char list"

definition ascii :: "string \<Rightarrow> pystr" where
  "ascii s = map of_char s"

subsection \<open>\<^verbatim>\<open>bytearray.decode("utf-8")\<close> and \<^verbatim>\<open>str.encode("utf-8")\<close>\<close>

definition is_cont :: "nat \<Rightarrow> bool" where
  "is_cont b = (0x80 \<le> b \<and> b \<le> 0xBF)"

text \<open>
  The strict decoder: shortest form only, no surrogates, nothing above U+10FFFF.
  \<open>None\<close> is \<^verbatim>\<open>UnicodeDecodeError\<close>.
\<close>

fun utf8_decode :: "nat list \<Rightarrow> pystr option" where
  "utf8_decode [] = Some []"
| "utf8_decode (b0 # bs) =
     (if b0 < 0x80 then map_option (Cons b0) (utf8_decode bs)
      else if 0xC2 \<le> b0 \<and> b0 \<le> 0xDF then
        (case bs of
           b1 # r \<Rightarrow>
             if is_cont b1
             then map_option (Cons ((b0 - 0xC0) * 64 + (b1 - 0x80))) (utf8_decode r)
             else None
         | _ \<Rightarrow> None)
      else if 0xE0 \<le> b0 \<and> b0 \<le> 0xEF then
        (case bs of
           b1 # b2 # r \<Rightarrow>
             if is_cont b1 \<and> is_cont b2 \<and> (b0 = 0xE0 \<longrightarrow> 0xA0 \<le> b1)
                \<and> (b0 = 0xED \<longrightarrow> b1 \<le> 0x9F)
             then map_option
                    (Cons ((b0 - 0xE0) * 4096 + (b1 - 0x80) * 64 + (b2 - 0x80)))
                    (utf8_decode r)
             else None
         | _ \<Rightarrow> None)
      else if 0xF0 \<le> b0 \<and> b0 \<le> 0xF4 then
        (case bs of
           b1 # b2 # b3 # r \<Rightarrow>
             if is_cont b1 \<and> is_cont b2 \<and> is_cont b3 \<and> (b0 = 0xF0 \<longrightarrow> 0x90 \<le> b1)
                \<and> (b0 = 0xF4 \<longrightarrow> b1 \<le> 0x8F)
             then map_option
                    (Cons ((b0 - 0xF0) * 262144 + (b1 - 0x80) * 4096
                           + (b2 - 0x80) * 64 + (b3 - 0x80)))
                    (utf8_decode r)
             else None
         | _ \<Rightarrow> None)
      else None)"

definition decode :: "bytes \<Rightarrow> pystr option" where
  "decode data = utf8_decode (map of_char data)"

text \<open>
  The encoder raises \<^verbatim>\<open>UnicodeEncodeError\<close> (here \<open>None\<close>) on a surrogate; a code
  point above U+10FFFF is no element of a \<^verbatim>\<open>str\<close> and is refused as well.
\<close>

fun utf8_encode :: "pystr \<Rightarrow> nat list option" where
  "utf8_encode [] = Some []"
| "utf8_encode (c # cs) =
     (if c < 0x80 then map_option (Cons c) (utf8_encode cs)
      else if c < 0x800 then
        map_option (\<lambda>r. (0xC0 + c div 64) # (0x80 + c mod 64) # r) (utf8_encode cs)
      else if c < 0x10000 then
        (if 0xD800 \<le> c \<and> c \<le> 0xDFFF then None
         else map_option
                (\<lambda>r. (0xE0 + c div 4096) # (0x80 + c div 64 mod 64) # (0x80 + c mod 64) # r)
                (utf8_encode cs))
      else if c < 0x110000 then
        map_option
          (\<lambda>r. (0xF0 + c div 262144) # (0x80 + c div 4096 mod 64)
                # (0x80 + c div 64 mod 64) # (0x80 + c mod 64) # r)
          (utf8_encode cs)
      else None)"

definition encode :: "pystr \<Rightarrow> bytes option" where
  "encode s = map_option (map char_of) (utf8_encode s)"

subsection \<open>\<^verbatim>\<open>in\<close>, \<^verbatim>\<open>split\<close>, \<^verbatim>\<open>strip\<close>\<close>

text \<open>\<^verbatim>\<open>pat in s\<close>: \<open>pat\<close> occurs in \<open>s\<close> as a contiguous run.\<close>

fun contains :: "'a list \<Rightarrow> 'a list \<Rightarrow> bool" where
  "contains pat [] = (pat = [])"
| "contains pat (c # cs) = (prefix pat (c # cs) \<or> contains pat cs)"

text \<open>\<^verbatim>\<open>s.split(sep)\<close> for a separator of one character: never an empty list.\<close>

fun split :: "'a \<Rightarrow> 'a list \<Rightarrow> 'a list list" where
  "split sep [] = [[]]"
| "split sep (c # cs) =
     (if c = sep then [] # split sep cs
      else (case split sep cs of
              [] \<Rightarrow> [[c]]
            | w # ws \<Rightarrow> (c # w) # ws))"

subsection \<open>The floats of the interpreter\<close>

text \<open>
  A Python \<^verbatim>\<open>float\<close> is an IEEE 754 binary64 value.  A finite one is kept as the
  rational number it denotes (the sign of a zero is not kept: it shows in no
  comparison); the others are the two infinities and the NaN.
\<close>

datatype pyfloat = Finite rat | Infinity bool | NaN

text \<open>\<^verbatim>\<open>x > y\<close> on floats: false whenever a NaN takes part.\<close>

fun float_gt :: "pyfloat \<Rightarrow> pyfloat \<Rightarrow> bool" where
  "float_gt NaN y = False"
| "float_gt x NaN = False"
| "float_gt (Finite a) (Finite b) = (b < a)"
| "float_gt (Finite a) (Infinity neg) = neg"
| "float_gt (Infinity neg) (Finite b) = (\<not> neg)"
| "float_gt (Infinity neg) (Infinity neg') = (\<not> neg \<and> neg')"

definition pow2 :: "int \<Rightarrow> rat" where
  "pow2 k = (if 0 \<le> k then 2 ^ nat k else 1 / 2 ^ nat (- k))"

text \<open>For \<open>0 < q\<close>, the \<open>e\<close> with \<open>2 ^ e \<le> q < 2 ^ (e + 1)\<close>.\<close>

definition floor_log2 :: "rat \<Rightarrow> int" where
  "floor_log2 q =
     (let (p, d) = quotient_of q; k = bitlen p - bitlen d
      in if pow2 k \<le> q then k else k - 1)"

definition round_half_even :: "rat \<Rightarrow> int" where
  "round_half_even x =
     (let f = \<lfloor>x\<rfloor>; d = x - of_int f
      in if d < 1 / 2 then f
         else if 1 / 2 < d then f + 1
         else if even f then f else f + 1)"

text \<open>
  Rounding of a non-negative rational to binary64, to nearest, ties to even:
  53 bits of precision, exponents from \<open>-1022\<close> (below it the subnormal spacing
  \<open>2 ^ -1074\<close>), overflow to infinity from \<open>2 ^ 1024\<close> on.  \<open>None\<close> is the overflow.
\<close>

definition round_binary64 :: "rat \<Rightarrow> rat option" where
  "round_binary64 q =
     (if q \<le> 0 then Some 0
      else let ulp = pow2 (max (floor_log2 q) (- 1022) - 52);
               r = of_int (round_half_even (q / ulp)) * ulp
           in if pow2 1024 \<le> r then None else Some r)"

definition to_binary64 :: "bool \<Rightarrow> rat \<Rightarrow> pyfloat" where
  "to_binary64 neg q =
     (case round_binary64 q of
        None \<Rightarrow> Infinity neg
      | Some r \<Rightarrow> Finite (if neg then - r else r))"

subsection \<open>\<^verbatim>\<open>float(s)\<close> on a string\<close>

text \<open>
  The interpreter's tables of the Unicode characters that count as white space and
  as decimal digits (with their digit values) are data of the interpreter, not of
  this repository: they are a parameter.  Only code points from 127 on are looked up.
\<close>

record unicode_db =
  isspace :: "nat \<Rightarrow> bool"
  todecimal :: "nat \<Rightarrow> nat option"

text \<open>
  First step of \<^verbatim>\<open>float\<close>: an ASCII string is taken as it is; in any other string a
  Unicode space becomes a blank, a Unicode digit its ASCII digit, and the string is
  cut after the first character that is neither, which becomes a question mark.
\<close>

fun transform :: "unicode_db \<Rightarrow> pystr \<Rightarrow> string" where
  "transform U [] = []"
| "transform U (ch # rest) =
     (if ch < 127 then char_of ch # transform U rest
      else if isspace U ch then CHR '' '' # transform U rest
      else (case todecimal U ch of
              None \<Rightarrow> ''?''
            | Some d \<Rightarrow> char_of (48 + d) # transform U rest))"

definition transform_decimal_and_space :: "unicode_db \<Rightarrow> pystr \<Rightarrow> string" where
  "transform_decimal_and_space U s =
     (if list_all (\<lambda>ch. ch < 128) s then map char_of s else transform U s)"

definition is_digit :: "char \<Rightarrow> bool" where
  "is_digit c = (48 \<le> (of_char c :: nat) \<and> (of_char c :: nat) \<le> 57)"

definition digit_val :: "char \<Rightarrow> int" where
  "digit_val c = of_char c - 48"

text \<open>The white space of the C locale: blank, \<^verbatim>\<open>\t \n \v \f \r\<close>.\<close>

definition is_space :: "char \<Rightarrow> bool" where
  "is_space c = (of_char c = (32 :: nat) \<or> (9 \<le> (of_char c :: nat) \<and> (of_char c :: nat) \<le> 13))"

definition strip_space :: "string \<Rightarrow> string" where
  "strip_space s = rev (dropWhile is_space (rev (dropWhile is_space s)))"

text \<open>
  Underscores in a numeral: each one between two digits.  \<open>prev\<close> is the
  character before, the NUL character at the start.
\<close>

fun underscores_ok :: "char \<Rightarrow> string \<Rightarrow> bool" where
  "underscores_ok prev [] = (prev \<noteq> CHR ''_'')"
| "underscores_ok prev (c # cs) =
     (if c = CHR ''_'' then is_digit prev \<and> underscores_ok c cs
      else (prev = CHR ''_'' \<longrightarrow> is_digit c) \<and> underscores_ok c cs)"

fun digits_val :: "int \<Rightarrow> string \<Rightarrow> int" where
  "digits_val acc [] = acc"
| "digits_val acc (c # cs) = digits_val (10 * acc + digit_val c) cs"

definition take_sign :: "string \<Rightarrow> bool \<times> string" where
  "take_sign s =
     (case s of
        [] \<Rightarrow> (False, [])
      | c # r \<Rightarrow> if c = CHR ''-'' then (True, r) else if c = CHR ''+'' then (False, r) else (False, s))"

definition MAX_DIGITS :: int where
  "MAX_DIGITS = 1000000000"

definition MAX_ABS_EXP :: int where
  "MAX_ABS_EXP = 1100000000"

text \<open>
  The exponent part, read after the digits: \<open>(e, rest)\<close>.  An \<^verbatim>\<open>e\<close> that no digit
  follows is not part of the numeral and stays in \<open>rest\<close>.  An exponent of more than
  nine significant digits counts as \<open>MAX_ABS_EXP\<close>.
\<close>

definition take_exponent :: "string \<Rightarrow> int \<times> string" where
  "take_exponent s =
     (case s of
        [] \<Rightarrow> (0, [])
      | c # r \<Rightarrow>
          if c = CHR ''e'' \<or> c = CHR ''E'' then
            (let (esign, r1) = take_sign r;
                 ds = takeWhile is_digit r1;
                 sig = dropWhile (\<lambda>d. d = CHR ''0'') ds;
                 abs_exp = (if 9 < length sig \<or> MAX_ABS_EXP < digits_val 0 sig
                            then MAX_ABS_EXP else digits_val 0 sig)
             in if ds = [] then (0, s)
                else ((if esign then - abs_exp else abs_exp), dropWhile is_digit r1))
          else (0, s))"

text \<open>
  The numeral parser of the interpreter (David Gay's \<^verbatim>\<open>strtod\<close> as Python carries
  it): an optional sign, digits with an optional point, at least one digit, an
  optional exponent.  The result is the value, correctly rounded, and what is left of
  the string; \<open>None\<close> when no numeral starts the string (or it has more than
  \<open>MAX_DIGITS\<close> digits).
\<close>

definition dg_strtod :: "string \<Rightarrow> (pyfloat \<times> string) option" where
  "dg_strtod s =
     (let (neg, s1) = take_sign s;
          ip = takeWhile is_digit s1;
          s2 = dropWhile is_digit s1;
          (fp, s3) = (case s2 of
                        [] \<Rightarrow> ([], s2)
                      | c # r \<Rightarrow> if c = CHR ''.'' then (takeWhile is_digit r, dropWhile is_digit r)
                                 else ([], s2));
          sig = dropWhile (\<lambda>d. d = CHR ''0'') (ip @ fp)
      in if ip = [] \<and> fp = [] then None
         else if MAX_DIGITS < int (length sig) \<or> MAX_DIGITS < int (length fp) then None
         else let (e, rest) = take_exponent s3;
                  m = digits_val 0 (ip @ fp);
                  x = e - int (length fp)
              in Some (to_binary64 neg
                         (if 0 \<le> x then of_int m * 10 ^ nat x else of_int m / 10 ^ nat (- x)),
                       rest))"

definition lower :: "char \<Rightarrow> char" where
  "lower c = (if 65 \<le> (of_char c :: nat) \<and> (of_char c :: nat) \<le> 90
              then char_of ((of_char c :: nat) + 32) else c)"

text \<open>The spellings of the infinities and of the NaN, in any case, after an optional sign.\<close>

definition parse_inf_or_nan :: "string \<Rightarrow> (pyfloat \<times> string) option" where
  "parse_inf_or_nan s =
     (let (neg, r) = take_sign s; l = map lower r
      in if prefix ''inf'' l then
           (if prefix ''inity'' (drop 3 l) then Some (Infinity neg, drop 8 r)
            else Some (Infinity neg, drop 3 r))
         else if prefix ''nan'' l then Some (NaN, drop 3 r)
         else None)"

text \<open>
  \<^verbatim>\<open>float(s)\<close>: \<open>None\<close> is the \<^verbatim>\<open>ValueError\<close> ("could not convert string to float").
  The whole string, white space at both ends apart, has to be one numeral.
\<close>

definition float :: "unicode_db \<Rightarrow> pystr \<Rightarrow> pyfloat option" where
  "float U s =
     (let a = transform_decimal_and_space U s
      in if CHR ''_'' \<in> set a \<and> \<not> underscores_ok (CHR 0x00) a then None
         else let t = strip_space (filter (\<lambda>c. c \<noteq> CHR ''_'') a)
              in (case (case dg_strtod t of None \<Rightarrow> parse_inf_or_nan t | Some r \<Rightarrow> Some r) of
                    None \<Rightarrow> None
                  | Some (x, rest) \<Rightarrow> if rest = [] then Some x else None))"

text \<open>
  \<^verbatim>\<open>s.strip()\<close> on a \<^verbatim>\<open>str\<close> removes the white space of Unicode at both ends: the
  ASCII ones (\<^verbatim>\<open>\t\<close> to \<^verbatim>\<open>\r\<close>, the separators 28 to 31, the blank) and those of the
  table.
\<close>

definition str_isspace :: "unicode_db \<Rightarrow> nat \<Rightarrow> bool" where
  "str_isspace U c =
     (c = 32 \<or> (9 \<le> c \<and> c \<le> 13) \<or> (28 \<le> c \<and> c \<le> 31) \<or> (127 \<le> c \<and> isspace U c))"

definition strip :: "unicode_db \<Rightarrow> pystr \<Rightarrow> pystr" where
  "strip U s = rev (dropWhile (str_isspace U) (rev (dropWhile (str_isspace U) s)))"

section \<open>Values, events and the shared state\<close>

text \<open>
  Python checks no type at a call: the parameters of the two \<^verbatim>\<open>main\<close> coroutines
  take whatever object the caller passes.  These are the objects the scripts pass.
\<close>

record namespace =
  arg_name :: "pystr option"
  arg_address :: "pystr option"
  arg_macos_use_bdaddr :: bool
  arg_characteristic :: pystr
  arg_led_characteristic :: pystr
  arg_debug :: bool

datatype pyval = VNone | VStr pystr | VBool bool | VQueue | VNamespace namespace

text \<open>The truth value of an object, as \<^verbatim>\<open>if address:\<close> and \<^verbatim>\<open>if not device:\<close> take it.\<close>

fun truthy :: "pyval \<Rightarrow> bool" where
  "truthy VNone = False"
| "truthy (VStr s) = (s \<noteq> [])"
| "truthy (VBool b) = b"
| "truthy VQueue = True"
| "truthy (VNamespace n) = True"

text \<open>
  The exceptions of the model.  The first four are a \<^verbatim>\<open>ValueError\<close> (a
  \<^verbatim>\<open>UnicodeEncodeError\<close> is one by its class); \<open>BleakError\<close> stands for whatever
  the client raises when a call to the device fails.
\<close>

datatype exc =
    CouldNotConvert pystr
  | NotEnoughValues nat
  | TooManyValues
  | UnicodeEncodeError
  | BleakError
  | TypeError

fun is_ValueError :: "exc \<Rightarrow> bool" where
  "is_ValueError (CouldNotConvert t) = True"
| "is_ValueError (NotEnoughValues k) = True"
| "is_ValueError TooManyValues = True"
| "is_ValueError UnicodeEncodeError = True"
| "is_ValueError BleakError = False"
| "is_ValueError TypeError = False"

text \<open>
  What a run does that can be seen from outside, in the order it happens: the lines
  printed and logged, the writes the transport has carried out, the sleeps, and the
  calls to the scanner and the client.
\<close>

datatype event =
    PrintReceivedCommand pystr
  | PrintSentCommand pystr
  | PrintParsedIMU pyfloat pyfloat pyfloat pyfloat pyfloat pyfloat
  | PrintErrorProcessingQueue exc
  | PrintUnexpectedError exc
  | PrintScanning
  | PrintDeviceNotFound pyval
  | PrintConnected
  | GattWrite pyval bytes
  | Sleep nat
  | LogStartingScan
  | LogCouldNotFindAddress pyval
  | LogCouldNotFindName pyval
  | LogConnecting
  | LogConnected
  | LogReceivedNotification pystr
  | LogErrorHandlingNotification
  | LogSendingCommand pystr
  | LogCancelled
  | FindDeviceByAddress pyval
  | FindDeviceByName pyval
  | Connect nat
  | Disconnect nat
  | StartNotify pyval
  | StopNotify pyval

text \<open>
  \<^verbatim>\<open>multiprocessing.Queue(maxsize)\<close>: first in, first out; \<open>maxsize = 0\<close> is a queue
  without bound.  Both scripts build theirs with \<^verbatim>\<open>Queue()\<close>.
\<close>

record pyqueue =
  maxsize :: nat
  items :: "pystr list"

definition Queue :: pyqueue where
  "Queue = \<lparr>maxsize = 0, items = []\<rparr>"

text \<open>\<^verbatim>\<open>queue.put(x)\<close>: \<open>None\<close> when the queue is full, where the call blocks.\<close>

definition put :: "pyqueue \<Rightarrow> pystr \<Rightarrow> pyqueue option" where
  "put q x =
     (if 0 < maxsize q \<and> maxsize q \<le> length (items q) then None
      else Some (q\<lparr>items := items q @ [x]\<rparr>))"

text \<open>\<^verbatim>\<open>queue.get()\<close>: \<open>None\<close> when the queue is empty, where the call blocks.\<close>

definition get :: "pyqueue \<Rightarrow> (pystr \<times> pyqueue) option" where
  "get q = (case items q of [] \<Rightarrow> None | x # xs \<Rightarrow> Some (x, q\<lparr>items := xs\<rparr>))"

definition empty :: "pyqueue \<Rightarrow> bool" where
  "empty q = (items q = [])"

text \<open>
  The state a loop works on: the queue, the events so far, and the number of writes
  asked of the client so far.  The link is not part of the repository: \<open>link k\<close>
  tells whether the \<open>k\<close>-th call of \<^verbatim>\<open>write_gatt_char\<close> goes through; when it does not,
  the call raises.
\<close>

record state =
  queue :: pyqueue
  trace :: "event list"
  attempts :: nat

type_synonym link = "nat \<Rightarrow> bool"

definition emit :: "event \<Rightarrow> state \<Rightarrow> state" where
  "emit e st = st\<lparr>trace := trace st @ [e]\<rparr>"

definition write_gatt_char :: "link \<Rightarrow> pyval \<Rightarrow> bytes \<Rightarrow> state \<Rightarrow> exc option \<times> state" where
  "write_gatt_char l uuid data st =
     (if l (attempts st)
      then (None, st\<lparr>trace := trace st @ [GattWrite uuid data], attempts := Suc (attempts st)\<rparr>)
      else (Some BleakError, st\<lparr>attempts := Suc (attempts st)\<rparr>))"

section \<open>\<^verbatim>\<open>enable_response.py\<close>\<close>

subsection \<open>\<^verbatim>\<open>process_queue_and_write\<close>\<close>

text \<open>
  \<^verbatim>\<open>gx, gy, gz, ax, ay, az = map(float, message.split(","))\<close>.  The \<^verbatim>\<open>map\<close> is lazy:
  the unpacking asks it for six values and then for one more, and \<^verbatim>\<open>float\<close> is
  called on a token only when its value is asked for.  \<open>unpack n\<close> is the unpacking
  with \<open>n\<close> values still to come.
\<close>

fun unpack :: "unicode_db \<Rightarrow> nat \<Rightarrow> pystr list \<Rightarrow> exc + pyfloat list" where
  "unpack U 0 [] = Inr []"
| "unpack U 0 (t # ts) =
     (case float U t of None \<Rightarrow> Inl (CouldNotConvert t) | Some x \<Rightarrow> Inl TooManyValues)"
| "unpack U (Suc n) [] = Inl (NotEnoughValues 0)"
| "unpack U (Suc n) (t # ts) =
     (case float U t of
        None \<Rightarrow> Inl (CouldNotConvert t)
      | Some x \<Rightarrow>
          (case unpack U n ts of
             Inl (NotEnoughValues k) \<Rightarrow> Inl (NotEnoughValues (Suc k))
           | Inl e \<Rightarrow> Inl e
           | Inr xs \<Rightarrow> Inr (x # xs)))"

text \<open>The literal \<^verbatim>\<open>0.50\<close> of the threshold: one half, a binary64 value.\<close>

definition threshold :: pyfloat where
  "threshold = Finite (1 / 2)"

text \<open>
  The body of the \<^verbatim>\<open>try\<close>, after \<^verbatim>\<open>queue.get()\<close> has returned \<open>message\<close>: the
  exception it ends with, if any, and the state it leaves.
\<close>

definition try_body :: "unicode_db \<Rightarrow> link \<Rightarrow> pyval \<Rightarrow> pystr \<Rightarrow> state \<Rightarrow> exc option \<times> state" where
  "try_body U l led message st =
     (if contains (ascii ''BLINK'') message then
        (let st1 = emit (PrintReceivedCommand message) st
         in case encode message of
              None \<Rightarrow> (Some UnicodeEncodeError, st1)
            | Some data \<Rightarrow>
                (case write_gatt_char l led data st1 of
                   (Some e, st2) \<Rightarrow> (Some e, st2)
                 | (None, st2) \<Rightarrow> (None, emit (PrintSentCommand message) st2)))
      else
        (case unpack U 6 (split 44 message) of
           Inl e \<Rightarrow> (Some e, st)
         | Inr vs \<Rightarrow>
             (case vs of
                [gx, gy, gz, ax, ay, az] \<Rightarrow>
                  (let st1 = emit (PrintParsedIMU gx gy gz ax ay az) st;
                       command = (if float_gt gx threshold then ascii ''BLINK_1S''
                                  else ascii ''BLINK_5S'')
                   in case encode (strip U command) of
                        None \<Rightarrow> (Some UnicodeEncodeError, st1)
                      | Some data \<Rightarrow>
                          (case write_gatt_char l led data st1 of
                             (Some e, st2) \<Rightarrow> (Some e, st2)
                           | (None, st2) \<Rightarrow> (None, emit (PrintSentCommand command) st2)))
              | _ \<Rightarrow> (Some TooManyValues, st))))"

text \<open>
  One turn of \<^verbatim>\<open>while True\<close>: \<^verbatim>\<open>queue.get()\<close>, the \<^verbatim>\<open>try\<close> body, the two handlers
  and the \<^verbatim>\<open>finally\<close>.  \<open>None\<close> when the queue is empty: the turn waits in
  \<^verbatim>\<open>queue.get()\<close> and does nothing until another process puts a message.
\<close>

definition iteration :: "unicode_db \<Rightarrow> link \<Rightarrow> pyval \<Rightarrow> state \<Rightarrow> state option" where
  "iteration U l led st =
     (case get (queue st) of
        None \<Rightarrow> None
      | Some (message, q) \<Rightarrow>
          (case try_body U l led message (st\<lparr>queue := q\<rparr>) of
             (None, st1) \<Rightarrow> Some (emit (Sleep 1) st1)
           | (Some e, st1) \<Rightarrow>
               Some (emit (Sleep 1)
                      (emit (if is_ValueError e then PrintErrorProcessingQueue e
                             else PrintUnexpectedError e) st1))))"

text \<open>
  The loop has no exit.  \<open>process_queue_and_write n\<close> is the state after \<open>n\<close> turns,
  or after fewer when the queue has run empty and the loop waits.
\<close>

fun process_queue_and_write :: "nat \<Rightarrow> unicode_db \<Rightarrow> link \<Rightarrow> pyval \<Rightarrow> state \<Rightarrow> state" where
  "process_queue_and_write 0 U l led st = st"
| "process_queue_and_write (Suc n) U l led st =
     (case iteration U l led st of
        None \<Rightarrow> st
      | Some st' \<Rightarrow> process_queue_and_write n U l led st')"

subsection \<open>\<^verbatim>\<open>main\<close> of \<^verbatim>\<open>enable_response.py\<close>\<close>

text \<open>
  The scanner and the device are not part of the repository.  \<open>by_address\<close> and
  \<open>by_name\<close> are what \<^verbatim>\<open>BleakScanner.find_device_by_address\<close> and
  \<^verbatim>\<open>find_device_by_name\<close> return for a selector and the \<^verbatim>\<open>use_bdaddr\<close> option (a
  device, here a number, or \<^verbatim>\<open>None\<close>); \<open>connects\<close> tells whether entering
  \<^verbatim>\<open>BleakClient(device)\<close> succeeds, \<open>notifies\<close> whether \<^verbatim>\<open>start_notify\<close> does.
\<close>

record ble =
  by_address :: "pyval \<Rightarrow> pyval \<Rightarrow> nat option"
  by_name :: "pyval \<Rightarrow> pyval \<Rightarrow> nat option"
  connects :: "nat \<Rightarrow> bool"
  notifies :: "nat \<Rightarrow> pyval \<Rightarrow> bool"

text \<open>
  How a coroutine ends: it returns, it raises, or (\<open>Looping\<close>) it is still in its
  loop when the model stops following it.
\<close>

datatype outcome = Returned | Raised exc | Looping

text \<open>
  \<^verbatim>\<open>main(queue, device_name, led_characteristic)\<close>.  The scan is by name, without
  the \<^verbatim>\<open>use_bdaddr\<close> option.  \<open>n\<close> bounds the turns of the writer loop that are followed.
\<close>

definition enable_main ::
  "ble \<Rightarrow> unicode_db \<Rightarrow> link \<Rightarrow> nat \<Rightarrow> pyval \<Rightarrow> pyval \<Rightarrow> state \<Rightarrow> outcome \<times> state" where
  "enable_main env U l n device_name led st =
     (let st1 = emit (FindDeviceByName device_name) (emit PrintScanning st)
      in case by_name env device_name (VBool False) of
           None \<Rightarrow> (Returned, emit (PrintDeviceNotFound device_name) st1)
         | Some device \<Rightarrow>
             if connects env device
             then (Looping,
                   process_queue_and_write n U l led
                     (emit PrintConnected (emit (Connect device) st1)))
             else (Raised BleakError, st1))"

section \<open>\<^verbatim>\<open>devel_notifications.py\<close>\<close>

subsection \<open>The notification handler\<close>

text \<open>
  A call either returns, leaving a state, or blocks for good in the state it has
  reached.
\<close>

datatype progress = Returns state | Blocks state

text \<open>
  \<^verbatim>\<open>handler(characteristic, data)\<close>, made by \<^verbatim>\<open>notification_handler_with_queue\<close>:
  decode, log, put; any exception is logged and goes no further.  When
  \<^verbatim>\<open>queue.put\<close> blocks, the line is logged and the item is not in the queue.
\<close>

definition handler :: "bytes \<Rightarrow> state \<Rightarrow> progress" where
  "handler data st =
     (case decode data of
        None \<Rightarrow> Returns (emit LogErrorHandlingNotification st)
      | Some decoded_data \<Rightarrow>
          (let st1 = emit (LogReceivedNotification decoded_data) st
           in case put (queue st1) decoded_data of
                None \<Rightarrow> Blocks st1
              | Some q \<Rightarrow> Returns (st1\<lparr>queue := q\<rparr>)))"

text \<open>The handler called on the notifications that arrive, one after the other.\<close>

fun deliver :: "bytes list \<Rightarrow> state \<Rightarrow> progress" where
  "deliver [] st = Returns st"
| "deliver (d # ds) st =
     (case handler d st of Blocks st1 \<Rightarrow> Blocks st1 | Returns st1 \<Rightarrow> deliver ds st1)"

subsection \<open>\<^verbatim>\<open>main\<close> of \<^verbatim>\<open>devel_notifications.py\<close>\<close>

text \<open>
  What happens while a turn of the command loop sleeps: notifications arrive and
  the handler runs on each, or the task is cancelled.
\<close>

datatype tick = Notifications "bytes list" | Cancel

datatype loop_end = LoopRaised exc | LoopCancelled | LoopRunning

text \<open>
  The \<^verbatim>\<open>while True\<close> of \<^verbatim>\<open>main\<close>, one tick a turn: when the queue is not empty, take
  one item, log it, encode it and write it to the LED characteristic; then sleep one
  second (\<^verbatim>\<open>queue.get()\<close> cannot block here: the queue has just been found not
  empty, and no other step of the model takes from it in between).  An exception of the write leaves the loop.  When the ticks are used up,
  or when the handler blocks, the loop is still running, in the state reached.
\<close>

fun command_loop :: "link \<Rightarrow> pyval \<Rightarrow> tick list \<Rightarrow> state \<Rightarrow> loop_end \<times> state" where
  "command_loop l led [] st = (LoopRunning, st)"
| "command_loop l led (t # ts) st =
     (case (if empty (queue st) then (None, st)
            else (case get (queue st) of
                    None \<Rightarrow> (None, st)
                  | Some (command, q) \<Rightarrow>
                      (let st1 = emit (LogSendingCommand command) (st\<lparr>queue := q\<rparr>)
                       in case encode command of
                            None \<Rightarrow> (Some UnicodeEncodeError, st1)
                          | Some data \<Rightarrow> write_gatt_char l led data st1))) of
        (Some e, st2) \<Rightarrow> (LoopRaised e, st2)
      | (None, st2) \<Rightarrow>
          (case t of
             Cancel \<Rightarrow> (LoopCancelled, st2)
           | Notifications ds \<Rightarrow>
               (case deliver ds (emit (Sleep 1) st2) of
                  Blocks st3 \<Rightarrow> (LoopRunning, st3)
                | Returns st3 \<Rightarrow> command_loop l led ts st3)))"

text \<open>
  \<^verbatim>\<open>main(name, address, characteristic, led_characteristic, use_bdaddr, queue)\<close>; the
  queue is the one of the state.
\<close>

definition main ::
  "ble \<Rightarrow> link \<Rightarrow> tick list \<Rightarrow> pyval \<Rightarrow> pyval \<Rightarrow> pyval \<Rightarrow> pyval \<Rightarrow> pyval \<Rightarrow> state
     \<Rightarrow> outcome \<times> state" where
  "main env l ts name address characteristic led_characteristic use_bdaddr st =
     (let st1 = emit LogStartingScan st;
          (device, st2) =
             (if truthy address
              then (by_address env address use_bdaddr, emit (FindDeviceByAddress address) st1)
              else (by_name env name use_bdaddr, emit (FindDeviceByName name) st1))
      in case device of
           None \<Rightarrow>
             (Returned,
              emit (if truthy address then LogCouldNotFindAddress address
                    else LogCouldNotFindName name) st2)
         | Some d \<Rightarrow>
             (let st3 = emit LogConnecting st2
              in if \<not> connects env d then (Raised BleakError, st3)
                 else let st4 = emit LogConnected (emit (Connect d) st3)
                      in if \<not> notifies env d characteristic
                         then (Raised BleakError, emit (Disconnect d) st4)
                         else (case command_loop l led_characteristic ts
                                      (emit (StartNotify characteristic) st4) of
                                 (LoopRunning, st5) \<Rightarrow> (Looping, st5)
                               | (LoopCancelled, st5) \<Rightarrow>
                                   (Returned,
                                    emit (Disconnect d)
                                      (emit (StopNotify characteristic) (emit LogCancelled st5)))
                               | (LoopRaised e, st5) \<Rightarrow>
                                   (Raised e,
                                    emit (Disconnect d) (emit (StopNotify characteristic) st5)))))"

text \<open>
  A call of \<^verbatim>\<open>main\<close> with positional arguments: six parameters, none with a
  default, so any other number of arguments is a \<^verbatim>\<open>TypeError\<close>, raised by the call
  itself before the body starts.
\<close>

definition call_main :: "ble \<Rightarrow> link \<Rightarrow> tick list \<Rightarrow> pyval list \<Rightarrow> state \<Rightarrow> outcome \<times> state" where
  "call_main env l ts args st =
     (case args of
        [name, address, characteristic, led_characteristic, use_bdaddr, _] \<Rightarrow>
          main env l ts name address characteristic led_characteristic use_bdaddr st
      | _ \<Rightarrow> (Raised TypeError, st))"

section \<open>The command lines\<close>

text \<open>
  The command line as \<^verbatim>\<open>argparse\<close> sees it once it has told options from
  positional arguments: the occurrences, in order.
\<close>

datatype token =
    OptName pystr
  | OptAddress pystr
  | OptMacosUseBdaddr
  | OptDebug
  | OptHelp
  | Positional pystr
  | Unrecognized pystr

record parsed =
  p_name :: "pystr option"
  p_address :: "pystr option"
  p_bdaddr :: bool
  p_debug :: bool
  p_positionals :: "pystr list"
  p_extras :: bool

definition no_args :: parsed where
  "no_args = \<lparr>p_name = None, p_address = None, p_bdaddr = False, p_debug = False,
              p_positionals = [], p_extras = False\<rparr>"

text \<open>
  Taking the occurrences one by one.  \<open>excl\<close>: \<^verbatim>\<open>--name\<close> and \<^verbatim>\<open>--address\<close> are in a
  mutually exclusive group, and one of them after the other is an error at once;
  \<open>dbg\<close>: the parser knows \<^verbatim>\<open>-d/--debug\<close>.  \<open>Inl\<close> is the exit status of a
  \<^verbatim>\<open>SystemExit\<close>: 0 after the help text, 2 after an error.
\<close>

fun consume :: "bool \<Rightarrow> bool \<Rightarrow> token list \<Rightarrow> parsed \<Rightarrow> nat + parsed" where
  "consume excl dbg [] p = Inr p"
| "consume excl dbg (OptHelp # ts) p = Inl 0"
| "consume excl dbg (OptName v # ts) p =
     (if excl \<and> p_address p \<noteq> None then Inl 2
      else consume excl dbg ts (p\<lparr>p_name := Some v\<rparr>))"
| "consume excl dbg (OptAddress v # ts) p =
     (if excl \<and> p_name p \<noteq> None then Inl 2
      else consume excl dbg ts (p\<lparr>p_address := Some v\<rparr>))"
| "consume excl dbg (OptMacosUseBdaddr # ts) p = consume excl dbg ts (p\<lparr>p_bdaddr := True\<rparr>)"
| "consume excl dbg (OptDebug # ts) p =
     (if dbg then consume excl dbg ts (p\<lparr>p_debug := True\<rparr>)
      else consume excl dbg ts (p\<lparr>p_extras := True\<rparr>))"
| "consume excl dbg (Positional v # ts) p =
     (if length (p_positionals p) < 2
      then consume excl dbg ts (p\<lparr>p_positionals := p_positionals p @ [v]\<rparr>)
      else consume excl dbg ts (p\<lparr>p_extras := True\<rparr>))"
| "consume excl dbg (Unrecognized v # ts) p = consume excl dbg ts (p\<lparr>p_extras := True\<rparr>)"

definition to_namespace :: "parsed \<Rightarrow> nat + namespace" where
  "to_namespace p =
     (case p_positionals p of
        [c, led] \<Rightarrow>
          if p_extras p then Inl 2
          else Inr \<lparr>arg_name = p_name p, arg_address = p_address p,
                    arg_macos_use_bdaddr = p_bdaddr p, arg_characteristic = c,
                    arg_led_characteristic = led, arg_debug = p_debug p\<rparr>
      | _ \<Rightarrow> Inl 2)"

text \<open>
  The parser of \<^verbatim>\<open>devel_notifications.py\<close>: \<^verbatim>\<open>--name\<close> and \<^verbatim>\<open>--address\<close> in a
  mutually exclusive group with \<^verbatim>\<open>required=True\<close>, two positional arguments,
  \<^verbatim>\<open>--macos-use-bdaddr\<close> and \<^verbatim>\<open>-d/--debug\<close>.
\<close>

definition devel_parse_args :: "token list \<Rightarrow> nat + namespace" where
  "devel_parse_args ts =
     (case consume True True ts no_args of
        Inl code \<Rightarrow> Inl code
      | Inr p \<Rightarrow>
          if length (p_positionals p) < 2 then Inl 2
          else if p_name p = None \<and> p_address p = None then Inl 2
          else to_namespace p)"

text \<open>
  The parser of \<^verbatim>\<open>enable_response.py\<close>: \<^verbatim>\<open>--name\<close> with \<^verbatim>\<open>required=True\<close>,
  \<^verbatim>\<open>--address\<close> optional, no group, two positional arguments and
  \<^verbatim>\<open>--macos-use-bdaddr\<close>; no \<^verbatim>\<open>--debug\<close> (the field stays \<open>False\<close>).
\<close>

definition enable_parse_args :: "token list \<Rightarrow> nat + namespace" where
  "enable_parse_args ts =
     (case consume False False ts no_args of
        Inl code \<Rightarrow> Inl code
      | Inr p \<Rightarrow>
          if p_name p = None \<or> length (p_positionals p) < 2 then Inl 2
          else to_namespace p)"

section \<open>The two scripts\<close>

text \<open>
  How a run of the interpreter ends: \<^verbatim>\<open>SystemExit\<close> with a code (what \<^verbatim>\<open>argparse\<close>
  raises: 0 after the help text, 2 after an error), an exception nobody catches, the
  end of the script, or never.  The exit status follows: the code, 1, 0, or none.
\<close>

datatype ending = SystemExit nat | Uncaught exc | Completed | Never

fun status :: "ending \<Rightarrow> nat option" where
  "status (SystemExit code) = Some code"
| "status (Uncaught e) = Some 1"
| "status Completed = Some 0"
| "status Never = None"

text \<open>\<^verbatim>\<open>asyncio.run(coroutine)\<close> as the last thing a script does.\<close>

fun ending_of :: "outcome \<Rightarrow> ending" where
  "ending_of Returned = Completed"
| "ending_of (Raised e) = Uncaught e"
| "ending_of Looping = Never"

definition initial :: state where
  "initial = \<lparr>queue = Queue, trace = [], attempts = 0\<rparr>"

fun opt_str :: "pystr option \<Rightarrow> pyval" where
  "opt_str None = VNone"
| "opt_str (Some s) = VStr s"

text \<open>
  The entry point of \<^verbatim>\<open>devel_notifications.py\<close> after \<^verbatim>\<open>parse_args\<close>: a new queue,
  the logging set-up, and \<^verbatim>\<open>asyncio.run(main(args, queue))\<close>.
\<close>

definition devel_entry :: "ble \<Rightarrow> link \<Rightarrow> tick list \<Rightarrow> namespace \<Rightarrow> outcome \<times> state" where
  "devel_entry env l ts args = call_main env l ts [VNamespace args, VQueue] initial"

text \<open>The script \<^verbatim>\<open>devel_notifications.py\<close>: how it ends, and the events of the run.\<close>

definition devel_script :: "ble \<Rightarrow> link \<Rightarrow> tick list \<Rightarrow> token list \<Rightarrow> ending \<times> event list" where
  "devel_script env l ts argv =
     (case devel_parse_args argv of
        Inl code \<Rightarrow> (SystemExit code, [])
      | Inr args \<Rightarrow>
          (case devel_entry env l ts args of (r, st) \<Rightarrow> (ending_of r, trace st)))"

text \<open>
  \<^verbatim>\<open>run_notifications\<close>, the target of the child process of \<^verbatim>\<open>enable_response.py\<close>:
  the six arguments, in the order of the parameters.
\<close>

definition run_notifications ::
  "ble \<Rightarrow> link \<Rightarrow> tick list \<Rightarrow> namespace \<Rightarrow> state \<Rightarrow> outcome \<times> state" where
  "run_notifications env l ts args st =
     call_main env l ts
       [opt_str (arg_name args), opt_str (arg_address args), VStr (arg_characteristic args),
        VStr (arg_led_characteristic args), VBool (arg_macos_use_bdaddr args), VQueue] st"

text \<open>
  The script \<^verbatim>\<open>enable_response.py\<close>: parse, start the child, run \<^verbatim>\<open>main\<close>, join the
  child.  The child runs beside the parent and shares its queue.  It is not followed
  here; what it does to the parent shows in two parameters: \<open>feed\<close>, the messages
  that \<^verbatim>\<open>queue.get()\<close> hands to the parent, in order (those the child's handler has
  put and the child's own loop has not taken first), and \<open>child\<close>, how the child
  ends.  \<^verbatim>\<open>queue.get()\<close> waits without a trace, so the moment a message arrives does
  not show in what the parent does.  The parent ends only after the child has.
\<close>

definition enable_script ::
  "ble \<Rightarrow> unicode_db \<Rightarrow> link \<Rightarrow> nat \<Rightarrow> pystr list \<Rightarrow> outcome \<Rightarrow> token list
     \<Rightarrow> ending \<times> event list" where
  "enable_script env U l n feed child argv =
     (case enable_parse_args argv of
        Inl code \<Rightarrow> (SystemExit code, [])
      | Inr args \<Rightarrow>
          (case enable_main env U l n (opt_str (arg_name args)) (VStr (arg_led_characteristic args))
                  (initial\<lparr>queue := Queue\<lparr>items := feed\<rparr>\<rparr>) of
             (r, st) \<Rightarrow> (if child = Looping then Never else ending_of r, trace st)))"

section \<open>Notions used to state the properties\<close>

text \<open>The writes the transport has carried out, in order: characteristic and octets.\<close>

fun writes :: "event list \<Rightarrow> (pyval \<times> bytes) list" where
  "writes [] = []"
| "writes (GattWrite uuid data # es) = (uuid, data) # writes es"
| "writes (e # es) = writes es"

text \<open>The seconds slept, summed over a trace.\<close>

fun slept :: "event list \<Rightarrow> nat" where
  "slept [] = 0"
| "slept (Sleep n # es) = n + slept es"
| "slept (e # es) = slept es"

text \<open>
  The octets a turn of the writer loop hands to the client for a message, if any: the
  message itself when it holds the keyword, the command chosen from \<open>gx\<close> when it is
  a reading of six values, nothing otherwise.
\<close>

definition written_for :: "unicode_db \<Rightarrow> pystr \<Rightarrow> bytes option" where
  "written_for U message =
     (if contains (ascii ''BLINK'') message then encode message
      else (case unpack U 6 (split 44 message) of
              Inr (gx # vs) \<Rightarrow> Some (if float_gt gx threshold then ''BLINK_1S'' else ''BLINK_5S'')
            | _ \<Rightarrow> None))"

text \<open>
  A decimal numeral as the specification means it: an optional minus sign, digits
  of the integer part, and, when there are digits of a fraction, a point and these
  digits.  The digits are given by their values.
\<close>

definition digit_char :: "nat \<Rightarrow> char" where
  "digit_char d = char_of (48 + d)"

definition decimal :: "bool \<Rightarrow> nat list \<Rightarrow> nat list \<Rightarrow> string" where
  "decimal neg ip fp =
     (if neg then ''-'' else []) @ map digit_char ip
     @ (if fp = [] then [] else CHR ''.'' # map digit_char fp)"

text \<open>The number a sequence of digits denotes, most significant digit first.\<close>

fun number :: "int \<Rightarrow> nat list \<Rightarrow> int" where
  "number acc [] = acc"
| "number acc (d # ds) = number (10 * acc + int d) ds"

text \<open>The binary64 value nearest to the numeral.\<close>

definition decimal_value :: "bool \<Rightarrow> nat list \<Rightarrow> nat list \<Rightarrow> pyfloat" where
  "decimal_value neg ip fp =
     to_binary64 neg (of_int (number 0 (ip @ fp)) / 10 ^ length fp)"

definition digits_ok :: "nat list \<Rightarrow> nat list \<Rightarrow> bool" where
  "digits_ok ip fp =
     (ip \<noteq> [] \<and> list_all (\<lambda>d. d < 10) (ip @ fp) \<and> int (length (ip @ fp)) \<le> MAX_DIGITS)"

text \<open>\<^verbatim>\<open>sep.join(fields)\<close>, for a separator of one character.\<close>

fun join :: "'a \<Rightarrow> 'a list list \<Rightarrow> 'a list" where
  "join sep [] = []"
| "join sep [f] = f"
| "join sep (f # g # fs) = f @ sep # join sep (g # fs)"

text \<open>
  A field of a payload: sign, digits of the integer part, digits of the fraction.
  Its text, the float it stands for, and the payload of comma-separated fields.
\<close>

type_synonym field = "bool \<times> nat list \<times> nat list"

fun field_text :: "field \<Rightarrow> pystr" where
  "field_text (neg, ip, fp) = ascii (decimal neg ip fp)"

fun field_value :: "field \<Rightarrow> pyfloat" where
  "field_value (neg, ip, fp) = decimal_value neg ip fp"

fun field_ok :: "field \<Rightarrow> bool" where
  "field_ok (neg, ip, fp) = digits_ok ip fp"

definition payload :: "field list \<Rightarrow> pystr" where
  "payload fs = join 44 (map field_text fs)"

text \<open>
  Sample surroundings, for the instances the properties are shown on: tables with no
  space and no digit beyond ASCII, a link on which every write goes through, and a
  neighbourhood in which the scanner finds no device.
\<close>

definition ascii_only :: unicode_db where
  "ascii_only = \<lparr>isspace = (\<lambda>c. False), todecimal = (\<lambda>c. None)\<rparr>"

definition up :: link where
  "up = (\<lambda>k. True)"

text \<open>The state at the start of a script, with messages already waiting in the queue.\<close>

definition queued :: "pystr list \<Rightarrow> state" where
  "queued ms = \<lparr>queue = \<lparr>maxsize = 0, items = ms\<rparr>, trace = [], attempts = 0\<rparr>"

definition nobody :: ble where
  "nobody = \<lparr>by_address = (\<lambda>a u. None), by_name = (\<lambda>n u. None),
             connects = (\<lambda>d. True), notifies = (\<lambda>d c. True)\<rparr>"

section \<open>Properties\<close>

subsection \<open>Decoding and encoding are inverse\<close>

text \<open>
  What the strict decoder accepts, the encoder turns back into the same octets.
\<close>

lemma dm1: "z < 64 \<Longrightarrow> (w * 64 + z) div 64 = (w::nat) \<and> (w * 64 + z) mod 64 = z"
  by simp

lemma dm3: assumes "y < 64" "z < 64"
  shows "(x * 4096 + y * 64 + z) div 4096 = (x::nat)"
    and "(x * 4096 + y * 64 + z) div 64 mod 64 = y"
    and "(x * 4096 + y * 64 + z) mod 64 = z"
proof -
  have e: "(x * 64 + y) * 64 + z = x * 4096 + y * 64 + z" by simp
  from dm1 [OF assms(2), of "x * 64 + y"]
  have d: "(x * 4096 + y * 64 + z) div 64 = x * 64 + y"
    and m: "(x * 4096 + y * 64 + z) mod 64 = z"
    unfolding e by blast+
  show "(x * 4096 + y * 64 + z) mod 64 = z" by (rule m)
  from dm1 [OF assms(1), of x] show "(x * 4096 + y * 64 + z) div 64 mod 64 = y"
    unfolding d by blast
  have "(x * 4096 + y * 64 + z) div 4096 = (x * 4096 + y * 64 + z) div 64 div 64"
    by (simp add: div_mult2_eq)
  also from dm1 [OF assms(1), of x] have "\<dots> = x" unfolding d by blast
  finally show "(x * 4096 + y * 64 + z) div 4096 = x" .
qed

lemma dm4: assumes "y < 64" "z < 64" "u < 64"
  shows "(x * 262144 + y * 4096 + z * 64 + u) div 262144 = (x::nat)"
    and "(x * 262144 + y * 4096 + z * 64 + u) div 4096 mod 64 = y"
    and "(x * 262144 + y * 4096 + z * 64 + u) div 64 mod 64 = z"
    and "(x * 262144 + y * 4096 + z * 64 + u) mod 64 = u"
proof -
  have e: "(x * 64 + y) * 4096 + z * 64 + u = x * 262144 + y * 4096 + z * 64 + u" by simp
  note h = dm3 [OF assms(2,3), of "x * 64 + y", unfolded e]
  show "(x * 262144 + y * 4096 + z * 64 + u) mod 64 = u" by (rule h(3))
  show "(x * 262144 + y * 4096 + z * 64 + u) div 64 mod 64 = z" by (rule h(2))
  from dm1 [OF assms(1), of x] show "(x * 262144 + y * 4096 + z * 64 + u) div 4096 mod 64 = y"
    unfolding h(1) by blast
  have "(x * 262144 + y * 4096 + z * 64 + u) div 262144
      = (x * 262144 + y * 4096 + z * 64 + u) div 4096 div 64"
    by (simp add: div_mult2_eq)
  also from dm1 [OF assms(1), of x] have "\<dots> = x" unfolding h(1) by blast
  finally show "(x * 262144 + y * 4096 + z * 64 + u) div 262144 = x" .
qed

lemma enc2: "0xC2 \<le> b0 \<Longrightarrow> b0 \<le> 0xDF \<Longrightarrow> is_cont b1 \<Longrightarrow> utf8_encode cs = Some r \<Longrightarrow>
  utf8_encode (((b0 - 0xC0) * 64 + (b1 - 0x80)) # cs) = Some (b0 # b1 # r)"
proof -
  assume a: "0xC2 \<le> b0" "b0 \<le> 0xDF" "is_cont b1" "utf8_encode cs = Some r"
  define x y where "x = b0 - 0xC0" and "y = b1 - 0x80"
  have b: "b0 = 0xC0 + x" "b1 = 0x80 + y" "2 \<le> x" "x < 32" "y < 64"
    using a(1-3) by (auto simp: x_def y_def is_cont_def)
  have lo: "0x80 \<le> x * 64 + y" using b by simp
  have hi: "x * 64 + y < 0x800" using b by simp
  show ?thesis
    using lo hi a(4) dm1 [OF b(5), of x]
    unfolding x_def [symmetric] y_def [symmetric] by (simp add: b)
qed

lemma enc3:
  assumes "0xE0 \<le> b0" "b0 \<le> 0xEF" "is_cont b1" "is_cont b2" "b0 = 0xE0 \<longrightarrow> 0xA0 \<le> b1"
    "b0 = 0xED \<longrightarrow> b1 \<le> 0x9F" "utf8_encode cs = Some r"
  shows "utf8_encode (((b0 - 0xE0) * 4096 + (b1 - 0x80) * 64 + (b2 - 0x80)) # cs)
         = Some (b0 # b1 # b2 # r)"
proof -
  define x y z where "x = b0 - 0xE0" and "y = b1 - 0x80" and "z = b2 - 0x80"
  have b: "b0 = 0xE0 + x" "b1 = 0x80 + y" "b2 = 0x80 + z" "x < 16" "y < 64" "z < 64"
    using assms(1-4) by (auto simp: x_def y_def z_def is_cont_def)
  let ?c = "x * 4096 + y * 64 + z"
  have lo: "0x800 \<le> ?c" using assms(5) b by (cases "x = 0") auto
  have hi: "?c < 0x10000" using b by simp
  have c13: "x = 13 \<longrightarrow> y \<le> 31" using assms(6) b by simp
  have sur: "\<not> (0xD800 \<le> ?c \<and> ?c \<le> 0xDFFF)"
  proof -
    consider "x \<le> 12" | "x = 13" | "14 \<le> x" by linarith
    then show ?thesis
    proof cases
      case 1
      then have "?c < 0xD800" using b(5,6) by linarith
      then show ?thesis by simp
    next
      case 2
      then have "y \<le> 31" using c13 by simp
      then have "?c < 0xD800" using 2 b(6) by linarith
      then show ?thesis by simp
    next
      case 3
      then have "0xDFFF < ?c" by linarith
      then show ?thesis by simp
    qed
  qed
  show ?thesis
    using lo hi sur assms(7) dm3 [OF b(5,6), of x]
    unfolding x_def [symmetric] y_def [symmetric] z_def [symmetric] by (simp add: b)
qed

lemma enc4:
  assumes "0xF0 \<le> b0" "b0 \<le> 0xF4" "is_cont b1" "is_cont b2" "is_cont b3"
    "b0 = 0xF0 \<longrightarrow> 0x90 \<le> b1" "b0 = 0xF4 \<longrightarrow> b1 \<le> 0x8F" "utf8_encode cs = Some r"
  shows "utf8_encode (((b0 - 0xF0) * 262144 + (b1 - 0x80) * 4096 + (b2 - 0x80) * 64
                       + (b3 - 0x80)) # cs) = Some (b0 # b1 # b2 # b3 # r)"
proof -
  define x y z u where "x = b0 - 0xF0" and "y = b1 - 0x80" and "z = b2 - 0x80" and "u = b3 - 0x80"
  have b: "b0 = 0xF0 + x" "b1 = 0x80 + y" "b2 = 0x80 + z" "b3 = 0x80 + u"
    "x < 5" "y < 64" "z < 64" "u < 64"
    using assms(1-5) by (auto simp: x_def y_def z_def u_def is_cont_def)
  let ?c = "x * 262144 + y * 4096 + z * 64 + u"
  have lo: "0x10000 \<le> ?c" using assms(6) b by (cases "x = 0") auto
  have hi: "?c < 0x110000"
  proof (cases "x = 4")
    case True
    then have "y \<le> 15" using assms(7) b by simp
    then show ?thesis using True b by simp
  next
    case False
    then have "x \<le> 3" using b by simp
    then show ?thesis using b by simp
  qed
  show ?thesis
    using lo hi assms(8) dm4 [OF b(6,7,8), of x]
    unfolding x_def [symmetric] y_def [symmetric] z_def [symmetric] u_def [symmetric] by (simp add: b)
qed

lemma utf8_roundtrip: "utf8_decode bs = Some s \<Longrightarrow> utf8_encode s = Some bs"
proof (induction bs arbitrary: s rule: utf8_decode.induct)
  case 1
  then show ?case by simp
next
  case (2 b0 bs)
  consider (a) "b0 < 0x80" | (b) "0xC2 \<le> b0" "b0 \<le> 0xDF" | (c) "0xE0 \<le> b0" "b0 \<le> 0xEF"
    | (d) "0xF0 \<le> b0" "b0 \<le> 0xF4"
    | (e1) "0x80 \<le> b0" "b0 < 0xC2" | (e2) "0xF4 < b0"
    by linarith
  then show ?case
  proof cases
    case a
    then obtain s' where s: "s = b0 # s'" "utf8_decode bs = Some s'"
      using "2.prems" by auto
    from "2.IH"(1) [OF a s(2)] show ?thesis using a s(1) by simp
  next
    case b
    then have nb: "\<not> b0 < 0x80" by simp
    from b "2.prems" nb obtain b1 r s' where
      s: "bs = b1 # r" "is_cont b1" "s = ((b0 - 0xC0) * 64 + (b1 - 0x80)) # s'"
         "utf8_decode r = Some s'"
      by (auto split: list.splits if_split_asm)
    have "utf8_encode s' = Some r"
      using "2.IH"(2) [OF nb _ s(1) s(2) s(4)] b by simp
    then show ?thesis unfolding s(1,3) using enc2 [OF b s(2)] by simp
  next
    case c
    then have nb: "\<not> b0 < 0x80" "\<not> (0xC2 \<le> b0 \<and> b0 \<le> 0xDF)" by simp_all
    from c "2.prems" nb obtain b1 b2 r s' where
      s: "bs = b1 # b2 # r" "is_cont b1" "is_cont b2" "b0 = 0xE0 \<longrightarrow> 0xA0 \<le> b1"
         "b0 = 0xED \<longrightarrow> b1 \<le> 0x9F"
         "s = ((b0 - 0xE0) * 4096 + (b1 - 0x80) * 64 + (b2 - 0x80)) # s'"
         "utf8_decode r = Some s'"
      by (auto split: list.splits if_split_asm)
    have "utf8_encode s' = Some r"
      using "2.IH"(3) [OF nb _ s(1) refl _ s(7)] c s(2-5) by simp
    then show ?thesis unfolding s(1,6) using enc3 [OF c s(2-5)] by simp
  next
    case d
    then have nb: "\<not> b0 < 0x80" "\<not> (0xC2 \<le> b0 \<and> b0 \<le> 0xDF)" "\<not> (0xE0 \<le> b0 \<and> b0 \<le> 0xEF)"
      by simp_all
    from d "2.prems" nb obtain b1 b2 b3 r s' where
      s: "bs = b1 # b2 # b3 # r" "is_cont b1" "is_cont b2" "is_cont b3"
         "b0 = 0xF0 \<longrightarrow> 0x90 \<le> b1" "b0 = 0xF4 \<longrightarrow> b1 \<le> 0x8F"
         "s = ((b0 - 0xF0) * 262144 + (b1 - 0x80) * 4096 + (b2 - 0x80) * 64 + (b3 - 0x80)) # s'"
         "utf8_decode r = Some s'"
      by (auto split: list.splits if_split_asm)
    have "utf8_encode s' = Some r"
      using "2.IH"(4) [OF nb _ s(1) refl refl _ s(8)] d s(2-6) by simp
    then show ?thesis unfolding s(1,7) using enc4 [OF d s(2-6)] by simp
  next
    case e1
    then show ?thesis using "2.prems" by simp
  next
    case e2
    then show ?thesis using "2.prems" by simp
  qed
qed

lemma encode_decode: "decode data = Some s \<Longrightarrow> encode s = Some data"
  by (simp add: decode_def encode_def utf8_roundtrip comp_def)


subsection \<open>\<^verbatim>\<open>float\<close> on a decimal numeral\<close>

text \<open>
  \<^verbatim>\<open>float\<close> accepts every decimal numeral and returns the binary64 value nearest to
  the number it denotes, whatever the Unicode tables are.
\<close>

lemma digit_char_code: "d < 10 \<Longrightarrow> (of_char (digit_char d) :: nat) = 48 + d"
  by (simp add: digit_char_def)

lemma digit_char_neq:
  assumes "d < 10" "(of_char c :: nat) < 48 \<or> 57 < (of_char c :: nat)"
  shows "digit_char d \<noteq> c"
proof
  assume "digit_char d = c"
  then have "(of_char c :: nat) = 48 + d" using digit_char_code [OF assms(1)] by simp
  then show False using assms by linarith
qed

lemma digit_char_props:
  assumes "d < 10"
  shows "is_digit (digit_char d)" "digit_val (digit_char d) = int d"
    "digit_char d \<noteq> CHR ''_''" "digit_char d \<noteq> CHR ''-''" "digit_char d \<noteq> CHR ''+''"
    "digit_char d \<noteq> CHR ''.''" "\<not> is_space (digit_char d)"
proof -
  note o = digit_char_code [OF assms]
  show "is_digit (digit_char d)" using assms by (simp add: is_digit_def o)
  have "(of_char (digit_char d) :: int) = int (of_char (digit_char d))"
    by (simp only: of_nat_of_char)
  then show "digit_val (digit_char d) = int d"
    by (simp add: digit_val_def o)
  show "digit_char d \<noteq> CHR ''_''" by (rule digit_char_neq [OF assms]) simp
  show "digit_char d \<noteq> CHR ''-''" by (rule digit_char_neq [OF assms]) simp
  show "digit_char d \<noteq> CHR ''+''" by (rule digit_char_neq [OF assms]) simp
  show "digit_char d \<noteq> CHR ''.''" by (rule digit_char_neq [OF assms]) simp
  show "\<not> is_space (digit_char d)" using assms by (simp add: is_space_def o)
qed

lemma digits_val_number:
  "list_all (\<lambda>d. d < 10) ds \<Longrightarrow> digits_val acc (map digit_char ds) = number acc ds"
  by (induction ds arbitrary: acc) (simp_all add: digit_char_props)

lemma takeWhile_digits:
  assumes "list_all (\<lambda>d. d < 10) ds" "r = [] \<or> \<not> is_digit (hd r)"
  shows "takeWhile is_digit (map digit_char ds @ r) = map digit_char ds"
    and "dropWhile is_digit (map digit_char ds @ r) = r"
proof -
  have a: "\<And>x. x \<in> set (map digit_char ds) \<Longrightarrow> is_digit x"
    using assms(1) by (auto simp: list_all_iff digit_char_props)
  have t: "takeWhile is_digit r = []" and d: "dropWhile is_digit r = r"
    using assms(2) by (cases r; simp)+
  show "takeWhile is_digit (map digit_char ds @ r) = map digit_char ds"
    using takeWhile_append2 [of "map digit_char ds" is_digit r] a t by simp
  show "dropWhile is_digit (map digit_char ds @ r) = r"
    using dropWhile_append2 [of "map digit_char ds" is_digit r] a d by simp
qed

lemma decimal_chars:
  assumes "digits_ok ip fp" "c \<in> set (decimal neg ip fp)"
  shows "c = CHR ''-'' \<or> c = CHR ''.'' \<or> (\<exists>d<10. c = digit_char d)"
  using assms by (auto simp: decimal_def digits_ok_def list_all_iff split: if_splits)

lemma decimal_char_facts:
  assumes "digits_ok ip fp" "c \<in> set (decimal neg ip fp)"
  shows "(of_char c :: nat) < 128" "c \<noteq> CHR ''_''" "\<not> is_space c" "(of_char c :: nat) \<noteq> 44"
proof -
  from decimal_chars [OF assms] consider "c = CHR ''-''" | "c = CHR ''.''"
    | d where "d < 10" "c = digit_char d" by blast
  then have "(of_char c :: nat) < 128 \<and> c \<noteq> CHR ''_'' \<and> \<not> is_space c \<and> (of_char c :: nat) \<noteq> 44"
  proof cases
    case 1
    then show ?thesis by (simp add: is_space_def)
  next
    case 2
    then show ?thesis by (simp add: is_space_def)
  next
    case 3
    then show ?thesis by (simp add: digit_char_props digit_char_code)
  qed
  then show "(of_char c :: nat) < 128" "c \<noteq> CHR ''_''" "\<not> is_space c" "(of_char c :: nat) \<noteq> 44"
    by simp_all
qed

lemma dropWhile_none: "\<forall>c\<in>set xs. \<not> P c \<Longrightarrow> dropWhile P xs = xs"
  by (cases xs) simp_all

lemma strip_space_id: "\<forall>c\<in>set s. \<not> is_space c \<Longrightarrow> strip_space s = s"
  by (simp add: strip_space_def dropWhile_none)

lemma take_sign_decimal:
  assumes "digits_ok ip fp"
  shows "take_sign (decimal neg ip fp)
         = (neg, map digit_char ip @ (if fp = [] then [] else CHR ''.'' # map digit_char fp))"
proof (cases neg)
  case True
  then show ?thesis by (simp add: decimal_def take_sign_def)
next
  case False
  from assms obtain d ds where ip: "ip = d # ds" "d < 10"
    by (cases ip) (auto simp: digits_ok_def)
  show ?thesis
    using False digit_char_props(4,5) [OF ip(2)]
    by (simp add: decimal_def take_sign_def ip(1))
qed

lemma dg_strtod_decimal:
  assumes "digits_ok ip fp"
  shows "dg_strtod (decimal neg ip fp) = Some (decimal_value neg ip fp, [])"
proof -
  let ?I = "map digit_char ip" and ?F = "map digit_char fp"
  let ?T = "if fp = [] then [] else CHR ''.'' # ?F"
  from assms have ok: "ip \<noteq> []" "list_all (\<lambda>d. d < 10) ip" "list_all (\<lambda>d. d < 10) fp"
    "list_all (\<lambda>d. d < 10) (ip @ fp)" "int (length (ip @ fp)) \<le> MAX_DIGITS"
    by (simp_all add: digits_ok_def)
  have T: "?T = [] \<or> \<not> is_digit (hd ?T)" by (simp add: is_digit_def)
  have tw: "takeWhile is_digit (?I @ ?T) = ?I" and dw: "dropWhile is_digit (?I @ ?T) = ?T"
    using takeWhile_digits [OF ok(2) T] by simp_all
  have twf: "takeWhile is_digit ?F = ?F" and dwf: "dropWhile is_digit ?F = []"
    using takeWhile_digits [OF ok(3), of "[]"] by simp_all
  have fpart: "(case ?T of [] \<Rightarrow> ([], ?T)
                | c # r \<Rightarrow> if c = CHR ''.'' then (takeWhile is_digit r, dropWhile is_digit r)
                           else ([], ?T)) = (?F, [])"
    by (simp add: twf dwf)
  have I: "?I \<noteq> []" using ok(1) by simp
  have "length (dropWhile (\<lambda>d. d = CHR ''0'') (?I @ ?F)) \<le> length (?I @ ?F)"
    by (rule length_dropWhile_le)
  then have lim1: "\<not> MAX_DIGITS < int (length (dropWhile (\<lambda>d. d = CHR ''0'') (?I @ ?F)))"
    using ok(5) by simp
  have lim2: "\<not> MAX_DIGITS < int (length ?F)" using ok(5) by simp
  have m: "digits_val 0 (?I @ ?F) = number 0 (ip @ fp)"
    using digits_val_number [OF ok(4), of 0] by simp
  have v: "(if 0 \<le> 0 - int (length ?F)
            then of_int (number 0 (ip @ fp)) * 10 ^ nat (0 - int (length ?F))
            else of_int (number 0 (ip @ fp)) / 10 ^ nat (- (0 - int (length ?F))))
           = (of_int (number 0 (ip @ fp)) / 10 ^ length fp :: rat)"
    by (cases "fp = []") simp_all
  show ?thesis
    unfolding dg_strtod_def take_sign_decimal [OF assms]
    by (simp only: Let_def prod.case tw dw fpart I lim1 lim2 m v take_exponent_def list.case
        decimal_value_def simp_thms if_False if_True)
qed

lemma float_decimal:
  assumes "digits_ok ip fp"
  shows "float U (ascii (decimal neg ip fp)) = Some (decimal_value neg ip fp)"
proof -
  let ?s = "decimal neg ip fp"
  note f = decimal_char_facts [OF assms, of _ neg]
  have "list_all (\<lambda>ch. ch < 128) (ascii ?s)"
    using f(1) by (simp add: ascii_def list_all_iff)
  moreover have "map char_of (ascii ?s) = ?s" by (simp add: ascii_def comp_def)
  ultimately have t: "transform_decimal_and_space U (ascii ?s) = ?s"
    by (simp add: transform_decimal_and_space_def)
  have u: "CHR ''_'' \<notin> set ?s" using f(2) by blast
  then have fl: "filter (\<lambda>c. c \<noteq> CHR ''_'') ?s = ?s" by (auto simp: filter_id_conv)
  have st: "strip_space ?s = ?s" using f(3) by (intro strip_space_id) blast
  show ?thesis
    by (simp add: float_def t u fl st dg_strtod_decimal [OF assms])
qed

subsection \<open>The unpacking and the body of a turn\<close>

text \<open>
  The lazy unpacking succeeds exactly when there are as many tokens as values
  asked for and \<^verbatim>\<open>float\<close> accepts each; every failure is a \<^verbatim>\<open>ValueError\<close>.
\<close>

lemma unpack_Inr_D:
  "unpack U n ts = Inr vs \<Longrightarrow> length ts = n \<and> map (float U) ts = map Some vs"
  by (induction U n ts arbitrary: vs rule: unpack.induct)
     (auto split: option.splits sum.splits exc.splits)

lemma unpack_Inr_I:
  "map (float U) ts = map Some vs \<Longrightarrow> unpack U (length ts) ts = Inr vs"
proof (induction ts arbitrary: vs)
  case Nil
  then show ?case by simp
next
  case (Cons t ts)
  then obtain v vs' where v: "vs = v # vs'" "float U t = Some v" "map (float U) ts = map Some vs'"
    by (cases vs) auto
  from Cons.IH [OF v(3)] show ?case by (simp add: v)
qed

lemma unpack_Inr_iff:
  "unpack U n ts = Inr vs \<longleftrightarrow> length ts = n \<and> map (float U) ts = map Some vs"
  using unpack_Inr_D unpack_Inr_I by blast

lemma unpack_Inl_ValueError: "unpack U n ts = Inl e \<Longrightarrow> is_ValueError e"
  by (induction U n ts arbitrary: e rule: unpack.induct)
     (auto split: option.splits sum.splits exc.splits)

lemma encode_ascii: "\<forall>c\<in>set s. (of_char c :: nat) < 128 \<Longrightarrow> encode (ascii s) = Some s"
  by (induction s) (auto simp: encode_def ascii_def)

lemma strip_BLINK_1S: "strip U (ascii ''BLINK_1S'') = ascii ''BLINK_1S''"
  by (simp add: strip_def ascii_def str_isspace_def)

lemma strip_BLINK_5S: "strip U (ascii ''BLINK_5S'') = ascii ''BLINK_5S''"
  by (simp add: strip_def ascii_def str_isspace_def)

lemma encode_BLINK_1S: "encode (ascii ''BLINK_1S'') = Some ''BLINK_1S''"
  by (rule encode_ascii) simp

lemma encode_BLINK_5S: "encode (ascii ''BLINK_5S'') = Some ''BLINK_5S''"
  by (rule encode_ascii) simp

lemma try_body_command:
  assumes "contains (ascii ''BLINK'') message" "encode message = Some data" "l (attempts st)"
  shows "try_body U l led message st =
           (None, st\<lparr>trace := trace st @ [PrintReceivedCommand message, GattWrite led data,
                                          PrintSentCommand message],
                     attempts := Suc (attempts st)\<rparr>)"
  using assms by (simp add: try_body_def emit_def write_gatt_char_def)

lemma try_body_command_down:
  assumes "contains (ascii ''BLINK'') message" "encode message = Some data" "\<not> l (attempts st)"
  shows "try_body U l led message st =
           (Some BleakError, st\<lparr>trace := trace st @ [PrintReceivedCommand message],
                                attempts := Suc (attempts st)\<rparr>)"
  using assms by (simp add: try_body_def emit_def write_gatt_char_def)

lemma try_body_command_unencodable:
  assumes "contains (ascii ''BLINK'') message" "encode message = None"
  shows "try_body U l led message st =
           (Some UnicodeEncodeError, st\<lparr>trace := trace st @ [PrintReceivedCommand message]\<rparr>)"
  using assms by (simp add: try_body_def emit_def)

lemma try_body_reading:
  assumes "\<not> contains (ascii ''BLINK'') message"
    and "map (float U) (split 44 message) = map Some [gx, gy, gz, ax, ay, az]"
    and "l (attempts st)"
  shows "try_body U l led message st =
           (None, st\<lparr>trace := trace st @
                      [PrintParsedIMU gx gy gz ax ay az,
                       GattWrite led (if float_gt gx threshold then ''BLINK_1S'' else ''BLINK_5S''),
                       PrintSentCommand (if float_gt gx threshold then ascii ''BLINK_1S''
                                         else ascii ''BLINK_5S'')],
                     attempts := Suc (attempts st)\<rparr>)"
proof -
  have "length (split 44 message) = length (map Some [gx, gy, gz, ax, ay, az])"
    using assms(2) by (metis length_map)
  then have len: "length (split 44 message) = 6" by simp
  have "unpack U 6 (split 44 message) = Inr [gx, gy, gz, ax, ay, az]"
    using unpack_Inr_I [OF assms(2)] len by simp
  then show ?thesis
    using assms(1,3)
    by (simp add: try_body_def emit_def write_gatt_char_def strip_BLINK_1S strip_BLINK_5S
        encode_BLINK_1S encode_BLINK_5S)
qed

lemma try_body_reading_down:
  assumes "\<not> contains (ascii ''BLINK'') message"
    and "map (float U) (split 44 message) = map Some [gx, gy, gz, ax, ay, az]"
    and "\<not> l (attempts st)"
  shows "try_body U l led message st =
           (Some BleakError, st\<lparr>trace := trace st @ [PrintParsedIMU gx gy gz ax ay az],
                                attempts := Suc (attempts st)\<rparr>)"
proof -
  have "length (split 44 message) = length (map Some [gx, gy, gz, ax, ay, az])"
    using assms(2) by (metis length_map)
  then have len: "length (split 44 message) = 6" by simp
  have "unpack U 6 (split 44 message) = Inr [gx, gy, gz, ax, ay, az]"
    using unpack_Inr_I [OF assms(2)] len by simp
  then show ?thesis
    using assms(1,3)
    by (simp add: try_body_def emit_def write_gatt_char_def strip_BLINK_1S strip_BLINK_5S
        encode_BLINK_1S encode_BLINK_5S)
qed

lemma try_body_malformed:
  assumes "\<not> contains (ascii ''BLINK'') message"
    and "length (split 44 message) \<noteq> 6 \<or> (\<exists>t\<in>set (split 44 message). float U t = None)"
  shows "\<exists>e. is_ValueError e \<and> try_body U l led message st = (Some e, st)"
proof -
  have "\<not> (\<exists>vs. unpack U 6 (split 44 message) = Inr vs)"
  proof
    assume "\<exists>vs. unpack U 6 (split 44 message) = Inr vs"
    then obtain vs where "unpack U 6 (split 44 message) = Inr vs" ..
    from unpack_Inr_D [OF this]
    have "length (split 44 message) = 6" "map (float U) (split 44 message) = map Some vs"
      by simp_all
    moreover have "\<forall>t\<in>set (split 44 message). float U t \<noteq> None"
    proof
      fix t assume "t \<in> set (split 44 message)"
      then have "float U t \<in> set (map (float U) (split 44 message))" by simp
      then show "float U t \<noteq> None"
        unfolding \<open>map (float U) (split 44 message) = map Some vs\<close> by auto
    qed
    ultimately show False using assms(2) by blast
  qed
  then obtain e where e: "unpack U 6 (split 44 message) = Inl e"
    by (cases "unpack U 6 (split 44 message)") auto
  from unpack_Inl_ValueError [OF e] e assms(1) show ?thesis
    by (simp add: try_body_def)
qed

subsection \<open>Payloads of decimal fields\<close>

text \<open>
  Splitting undoes joining when no field holds the separator; a payload of decimal
  fields holds no keyword, splits into its fields, and each field converts.
\<close>

lemma split_single: "sep \<notin> set f \<Longrightarrow> split sep f = [f]"
  by (induction f) auto

lemma split_append: "sep \<notin> set f \<Longrightarrow> split sep (f @ sep # r) = f # split sep r"
  by (induction f) auto

lemma split_join:
  "fs \<noteq> [] \<Longrightarrow> \<forall>f\<in>set fs. sep \<notin> set f \<Longrightarrow> split sep (join sep fs) = fs"
  by (induction sep fs rule: join.induct) (simp_all add: split_single split_append)

lemma set_join: "set (join sep fs) \<subseteq> insert sep (\<Union> (set ` set fs))"
  by (induction sep fs rule: join.induct) auto

lemma contains_set: "contains pat s \<Longrightarrow> set pat \<subseteq> set s"
proof (induction s)
  case Nil
  then show ?case by simp
next
  case (Cons c cs)
  from Cons.prems consider "prefix pat (c # cs)" | "contains pat cs" by auto
  then show ?case
  proof cases
    case 1
    then show ?thesis by (rule set_mono_prefix)
  next
    case 2
    from Cons.IH [OF this] show ?thesis by auto
  qed
qed

lemma field_text_chars:
  assumes "field_ok f" "c \<in> set (field_text f)"
  shows "c \<noteq> 44" "c \<noteq> 66"
proof -
  obtain neg ip fp where f: "f = (neg, ip, fp)" by (cases f)
  from assms obtain ch where ch: "ch \<in> set (decimal neg ip fp)" "c = of_char ch"
    by (auto simp: f ascii_def)
  from assms(1) have ok: "digits_ok ip fp" by (simp add: f)
  from decimal_chars [OF ok ch(1)] consider "ch = CHR ''-''" | "ch = CHR ''.''"
    | d where "d < 10" "ch = digit_char d" by blast
  then have "c \<noteq> 44 \<and> c \<noteq> 66"
  proof cases
    case 1 then show ?thesis by (simp add: ch(2))
  next
    case 2 then show ?thesis by (simp add: ch(2))
  next
    case 3 then show ?thesis by (simp add: ch(2) digit_char_code)
  qed
  then show "c \<noteq> 44" "c \<noteq> 66" by simp_all
qed

lemma payload_no_keyword:
  assumes "list_all field_ok fs"
  shows "\<not> contains (ascii ''BLINK'') (payload fs)"
proof
  assume "contains (ascii ''BLINK'') (payload fs)"
  from contains_set [OF this] have "66 \<in> set (payload fs)" by (auto simp: ascii_def)
  with set_join [of 44 "map field_text fs"] obtain f where f: "f \<in> set fs" "66 \<in> set (field_text f)"
    by (auto simp: payload_def)
  from f(1) assms have "field_ok f" by (simp add: list_all_iff)
  from field_text_chars(2) [OF this f(2)] show False by simp
qed

lemma payload_split:
  assumes "list_all field_ok fs" "fs \<noteq> []"
  shows "split 44 (payload fs) = map field_text fs"
  unfolding payload_def
proof (rule split_join)
  show "map field_text fs \<noteq> []" using assms(2) by simp
  show "\<forall>t\<in>set (map field_text fs). 44 \<notin> set t"
  proof
    fix t assume "t \<in> set (map field_text fs)"
    then obtain f where f: "f \<in> set fs" "t = field_text f" by auto
    from f(1) assms(1) have ok: "field_ok f" by (simp add: list_all_iff)
    show "44 \<notin> set t"
    proof
      assume "44 \<in> set t"
      from field_text_chars(1) [OF ok this [unfolded f(2)]] show False by simp
    qed
  qed
qed

lemma payload_floats:
  assumes "list_all field_ok fs" "fs \<noteq> []"
  shows "map (float U) (split 44 (payload fs)) = map Some (map field_value fs)"
proof -
  have "\<And>f. f \<in> set fs \<Longrightarrow> float U (field_text f) = Some (field_value f)"
  proof -
    fix f assume "f \<in> set fs"
    then have "field_ok f" using assms(1) by (simp add: list_all_iff)
    then show "float U (field_text f) = Some (field_value f)"
      by (cases f) (simp add: float_decimal)
  qed
  then show ?thesis by (simp add: payload_split [OF assms])
qed

lemma p1: "payload [(False, [0], [6, 0]), (False, [0], []), (False, [0], []), (False, [0], []),
              (False, [0], []), (False, [0], [])] = ascii ''0.60,0,0,0,0,0''"
  by (simp add: payload_def ascii_def decimal_def digit_char_def)

lemma v1: "field_value (False, [0], [6, 0]) = Finite (5404319552844595 / 9007199254740992)"
  by code_simp

lemma v2: "field_value (False, [0], [1, 0]) = Finite (7205759403792794 / 72057594037927936)"
  by code_simp

lemma v0: "field_value (False, [0], []) = Finite 0"
  by code_simp

lemma ok1: "list_all field_ok [(False, [0], [6, 0]), (False, [0], []), (False, [0], []), (False, [0], []),
              (False, [0], []), (False, [0], [])]"
  by (simp add: digits_ok_def MAX_DIGITS_def)

lemma p2: "payload [(False, [0], [1, 0]), (False, [0], []), (False, [0], []), (False, [0], []),
              (False, [0], []), (False, [0], [])] = ascii ''0.10,0,0,0,0,0''"
  by (simp add: payload_def ascii_def decimal_def digit_char_def)

lemma ok2: "list_all field_ok [(False, [0], [1, 0]), (False, [0], []), (False, [0], []), (False, [0], []),
              (False, [0], []), (False, [0], [])]"
  by (simp add: digits_ok_def MAX_DIGITS_def)

subsection \<open>One turn of the writer loop, and the loop\<close>

lemma writes_append: "writes (xs @ ys) = writes xs @ writes ys"
  by (induction xs rule: writes.induct) simp_all

lemma slept_append: "slept (xs @ ys) = slept xs + slept ys"
  by (induction xs rule: slept.induct) simp_all

lemma unpack_six:
  assumes "unpack U 6 ts = Inr vs"
  obtains gx gy gz ax ay az where "vs = [gx, gy, gz, ax, ay, az]"
proof -
  from unpack_Inr_D [OF assms] have "length (map (float U) ts) = length (map Some vs)" "length ts = 6"
    by simp_all
  then have "length vs = 6" by simp
  then obtain gx gy gz ax ay az where "vs = [gx, gy, gz, ax, ay, az]"
    by (auto simp: eval_nat_numeral length_Suc_conv)
  then show ?thesis by (rule that)
qed

lemma try_body_effect:
  "queue (snd (try_body U l led message st)) = queue st
   \<and> slept (trace (snd (try_body U l led message st))) = slept (trace st)
   \<and> attempts (snd (try_body U l led message st))
       = attempts st + (if written_for U message = None then 0 else 1)
   \<and> writes (trace (snd (try_body U l led message st)))
       = writes (trace st) @
         (if l (attempts st)
          then (case written_for U message of None \<Rightarrow> [] | Some d \<Rightarrow> [(led, d)]) else [])"
proof (cases "contains (ascii ''BLINK'') message")
  case True
  then show ?thesis
    by (cases "encode message")
       (auto simp: try_body_def emit_def write_gatt_char_def written_for_def writes_append
          slept_append)
next
  case False
  show ?thesis
  proof (cases "unpack U 6 (split 44 message)")
    case (Inl e)
    then show ?thesis using False by (simp add: try_body_def written_for_def)
  next
    case (Inr vs)
    from unpack_six [OF Inr] obtain gx gy gz ax ay az where vs: "vs = [gx, gy, gz, ax, ay, az]" .
    show ?thesis
      using False Inr
      by (simp add: vs try_body_def written_for_def emit_def write_gatt_char_def
          strip_BLINK_1S strip_BLINK_5S encode_BLINK_1S encode_BLINK_5S writes_append slept_append)
  qed
qed

lemma iteration_empty: "items (queue st) = [] \<Longrightarrow> iteration U l led st = None"
  by (simp add: iteration_def get_def)

lemma iteration_effect:
  assumes "items (queue st) = message # rest"
  shows "\<exists>st'. iteration U l led st = Some st'
          \<and> queue st' = (queue st)\<lparr>items := rest\<rparr>
          \<and> slept (trace st') = slept (trace st) + 1
          \<and> attempts st' = attempts st + (if written_for U message = None then 0 else 1)
          \<and> writes (trace st')
              = writes (trace st) @
                (if l (attempts st)
                 then (case written_for U message of None \<Rightarrow> [] | Some d \<Rightarrow> [(led, d)])
                 else [])"
proof -
  let ?st0 = "st\<lparr>queue := (queue st)\<lparr>items := rest\<rparr>\<rparr>"
  obtain r st1 where b: "try_body U l led message ?st0 = (r, st1)"
    by (cases "try_body U l led message ?st0")
  from try_body_effect [of U l led message ?st0] b
  have e: "queue st1 = (queue st)\<lparr>items := rest\<rparr>" "slept (trace st1) = slept (trace st)"
    "attempts st1 = attempts st + (if written_for U message = None then 0 else 1)"
    "writes (trace st1) = writes (trace st) @
       (if l (attempts st)
        then (case written_for U message of None \<Rightarrow> [] | Some d \<Rightarrow> [(led, d)]) else [])"
    by simp_all
  show ?thesis
    using assms b e
    by (cases r) (simp_all add: iteration_def get_def emit_def writes_append slept_append)
qed

lemma loop_queue_slept:
  "queue (process_queue_and_write n U l led st) = (queue st)\<lparr>items := drop n (items (queue st))\<rparr>
   \<and> slept (trace (process_queue_and_write n U l led st))
       = slept (trace st) + min n (length (items (queue st)))"
proof (induction n arbitrary: st)
  case 0
  then show ?case by simp
next
  case (Suc n)
  show ?case
  proof (cases "items (queue st)")
    case Nil
    then show ?thesis by (simp add: iteration_empty)
  next
    case (Cons message rest)
    from iteration_effect [OF Cons, of U l led] obtain st' where
      s: "iteration U l led st = Some st'" "queue st' = (queue st)\<lparr>items := rest\<rparr>"
         "slept (trace st') = slept (trace st) + 1"
      by blast
    show ?thesis using Suc.IH [of st'] s Cons by simp
  qed
qed




lemma contains_BLINK_1S: "contains (ascii ''BLINK'') (ascii ''BLINK_1S'')"
  by (simp add: ascii_def)

lemma split_123: "split 44 (ascii ''1,2,3'') = [ascii ''1'', ascii ''2'', ascii ''3'']"
  by (simp add: ascii_def)

lemma no_keyword_123: "\<not> contains (ascii ''BLINK'') (ascii ''1,2,3'')"
  by (simp add: ascii_def)

lemma try_body_trace:
  "\<exists>evs. trace (snd (try_body U l led message st)) = trace st @ evs
         \<and> slept evs = 0 \<and> length (writes evs) \<le> 1"
proof (cases "contains (ascii ''BLINK'') message")
  case True
  show ?thesis
  proof (cases "encode message")
    case None
    from try_body_command_unencodable [OF True None] show ?thesis by simp
  next
    case (Some data)
    show ?thesis
    proof (cases "l (attempts st)")
      case True
      from try_body_command [where l = l and st = st, OF \<open>contains (ascii ''BLINK'') message\<close> Some True]
      show ?thesis by simp
    next
      case False
      from try_body_command_down [where l = l and st = st, OF \<open>contains (ascii ''BLINK'') message\<close> Some False]
      show ?thesis by simp
    qed
  qed
next
  case False
  show ?thesis
  proof (cases "unpack U 6 (split 44 message)")
    case (Inl e)
    then show ?thesis using False by (simp add: try_body_def)
  next
    case (Inr vs)
    from unpack_six [OF Inr] obtain gx gy gz ax ay az where vs: "vs = [gx, gy, gz, ax, ay, az]" .
    from unpack_Inr_D [OF Inr]
    have m: "map (float U) (split 44 message) = map Some [gx, gy, gz, ax, ay, az]"
      by (simp add: vs)
    show ?thesis
    proof (cases "l (attempts st)")
      case True
      from try_body_reading [where l = l and st = st, OF False m True] show ?thesis by simp
    next
      case down: False
      from try_body_reading_down [where l = l and st = st, OF False m down] show ?thesis by simp
    qed
  qed
qed

lemma iteration_trace:
  assumes "iteration U l led st = Some st'"
  shows "\<exists>evs. trace st' = trace st @ evs @ [Sleep 1] \<and> slept evs = 0 \<and> length (writes evs) \<le> 1"
proof -
  from assms obtain message q where g: "get (queue st) = Some (message, q)"
    by (auto simp: iteration_def split: option.splits)
  let ?st0 = "st\<lparr>queue := q\<rparr>"
  obtain r st1 where b: "try_body U l led message ?st0 = (r, st1)"
    by (cases "try_body U l led message ?st0")
  from try_body_trace [of U l led message ?st0] b obtain evs where
    e: "trace st1 = trace st @ evs" "slept evs = 0" "length (writes evs) \<le> 1"
    by auto
  show ?thesis
  proof (cases r)
    case None
    have "st' = emit (Sleep 1) st1"
      using assms g b None by (simp add: iteration_def)
    then have "trace st' = trace st @ evs @ [Sleep 1]"
      using e(1) by (simp add: emit_def)
    then show ?thesis using e(2,3) by blast
  next
    case (Some x)
    let ?p = "if is_ValueError x then PrintErrorProcessingQueue x else PrintUnexpectedError x"
    have "st' = emit (Sleep 1) (emit ?p st1)"
      using assms g b Some by (simp add: iteration_def)
    then have "trace st' = trace st @ (evs @ [?p]) @ [Sleep 1]"
      using e(1) by (simp add: emit_def)
    moreover have "slept (evs @ [?p]) = 0" "length (writes (evs @ [?p])) \<le> 1"
      using e(2,3) by (simp_all add: slept_append writes_append)
    ultimately show ?thesis by blast
  qed
qed

subsection \<open>Sample runs, the handler and the command lines\<close>

lemma burst_trace:
  "trace (process_queue_and_write 2 ascii_only up (VStr (ascii ''2A59''))
            (queued [ascii ''BLINK_1S'', ascii ''BLINK_5S'']))
   = [PrintReceivedCommand (ascii ''BLINK_1S''), GattWrite (VStr (ascii ''2A59'')) ''BLINK_1S'',
      PrintSentCommand (ascii ''BLINK_1S''), Sleep 1,
      PrintReceivedCommand (ascii ''BLINK_5S''), GattWrite (VStr (ascii ''2A59'')) ''BLINK_5S'',
      PrintSentCommand (ascii ''BLINK_5S''), Sleep 1]"
  by code_simp











lemma decode_ascii: "\<forall>c\<in>set s. (of_char c :: nat) < 128 \<Longrightarrow> decode s = Some (ascii s)"
  by (induction s) (auto simp: decode_def ascii_def)

lemma handler_unbounded:
  assumes "maxsize (queue st) = 0" "decode d = Some s"
  shows "handler d st = Returns (st\<lparr>queue := (queue st)\<lparr>items := items (queue st) @ [s]\<rparr>,
                                   trace := trace st @ [LogReceivedNotification s]\<rparr>)"
  using assms by (simp add: handler_def put_def emit_def)






lemma command_loop_turn:
  assumes "items (queue st) = command # rest" "encode command = Some data" "l (attempts st)"
  shows "command_loop l led (t # ts) st
         = (case t of
              Cancel \<Rightarrow>
                (LoopCancelled,
                 st\<lparr>queue := (queue st)\<lparr>items := rest\<rparr>,
                    trace := trace st @ [LogSendingCommand command, GattWrite led data],
                    attempts := Suc (attempts st)\<rparr>)
            | Notifications ds \<Rightarrow>
                (case deliver ds
                        (st\<lparr>queue := (queue st)\<lparr>items := rest\<rparr>,
                            attempts := Suc (attempts st),
                            trace := trace st @ [LogSendingCommand command, GattWrite led data,
                                                 Sleep 1]\<rparr>) of
                   Blocks st3 \<Rightarrow> (LoopRunning, st3)
                 | Returns st3 \<Rightarrow> command_loop l led ts st3))"
  using assms by (cases t) (simp_all add: empty_def get_def emit_def write_gatt_char_def)

lemma decode_060: "decode ''0.60,0,0,0,0,0'' = Some (ascii ''0.60,0,0,0,0,0'')"
  by (rule decode_ascii) simp

lemma devel_parse_sample:
  "devel_parse_args [OptName (ascii ''Nano''), Positional (ascii ''2A58''), Positional (ascii ''2A59'')]
   = Inr \<lparr>arg_name = Some (ascii ''Nano''), arg_address = None, arg_macos_use_bdaddr = False,
          arg_characteristic = ascii ''2A58'', arg_led_characteristic = ascii ''2A59'',
          arg_debug = False\<rparr>"
  by (simp add: devel_parse_args_def no_args_def to_namespace_def)

lemma consume_flags:
  "consume excl dbg ts p = Inr p' \<Longrightarrow>
     ((p_name p' \<noteq> None) = (p_name p \<noteq> None \<or> (\<exists>v. OptName v \<in> set ts)))
   \<and> ((p_address p' \<noteq> None) = (p_address p \<noteq> None \<or> (\<exists>v. OptAddress v \<in> set ts)))
   \<and> (excl \<longrightarrow> \<not> (p_name p \<noteq> None \<and> p_address p \<noteq> None)
         \<longrightarrow> \<not> (p_name p' \<noteq> None \<and> p_address p' \<noteq> None))"
  by (induction excl dbg ts p rule: consume.induct) (auto split: if_splits)

lemma to_namespace_flags:
  "to_namespace p = Inr args \<Longrightarrow> arg_name args = p_name p \<and> arg_address args = p_address p"
  by (auto simp: to_namespace_def split: list.splits if_splits)

lemma devel_parse_flags:
  assumes "devel_parse_args argv = Inr args"
  shows "(arg_name args = None) \<noteq> (arg_address args = None)"
    and "(arg_name args \<noteq> None) = (\<exists>v. OptName v \<in> set argv)"
    and "(arg_address args \<noteq> None) = (\<exists>v. OptAddress v \<in> set argv)"
proof -
  from assms obtain p where p: "consume True True argv no_args = Inr p"
    "\<not> (p_name p = None \<and> p_address p = None)" "to_namespace p = Inr args"
    by (auto simp: devel_parse_args_def split: sum.splits if_splits)
  note f = consume_flags [OF p(1)] and n = to_namespace_flags [OF p(3)]
  have z: "p_name no_args = None" "p_address no_args = None" by (simp_all add: no_args_def)
  show "(arg_name args = None) \<noteq> (arg_address args = None)"
    using f p(2) n z by auto
  show "(arg_name args \<noteq> None) = (\<exists>v. OptName v \<in> set argv)"
    using f n z by auto
  show "(arg_address args \<noteq> None) = (\<exists>v. OptAddress v \<in> set argv)"
    using f n z by auto
qed

lemma enable_parse_flags:
  assumes "enable_parse_args argv = Inr args"
  shows "arg_name args \<noteq> None"
    and "(arg_name args \<noteq> None) = (\<exists>v. OptName v \<in> set argv)"
    and "(arg_address args \<noteq> None) = (\<exists>v. OptAddress v \<in> set argv)"
proof -
  from assms obtain p where p: "consume False False argv no_args = Inr p"
    "p_name p \<noteq> None" "to_namespace p = Inr args"
    by (auto simp: enable_parse_args_def split: sum.splits if_splits)
  note f = consume_flags [OF p(1)] and n = to_namespace_flags [OF p(3)]
  have z: "p_name no_args = None" "p_address no_args = None" by (simp_all add: no_args_def)
  show "arg_name args \<noteq> None" using p(2) n by simp
  show "(arg_name args \<noteq> None) = (\<exists>v. OptName v \<in> set argv)"
    using f n z by auto
  show "(arg_address args \<noteq> None) = (\<exists>v. OptAddress v \<in> set argv)"
    using f n z by auto
qed

lemma enable_parse_both:
  "enable_parse_args [OptName (ascii ''Nano''), OptAddress (ascii ''AA:BB''),
                      Positional (ascii ''2A58''), Positional (ascii ''2A59'')]
   = Inr \<lparr>arg_name = Some (ascii ''Nano''), arg_address = Some (ascii ''AA:BB''),
          arg_macos_use_bdaddr = False, arg_characteristic = ascii ''2A58'',
          arg_led_characteristic = ascii ''2A59'', arg_debug = False\<rparr>"
  by (simp add: enable_parse_args_def no_args_def to_namespace_def)

lemma enable_parse_address_only:
  "enable_parse_args [OptAddress (ascii ''AA:BB''), Positional (ascii ''2A58''),
                      Positional (ascii ''2A59'')] = Inl 2"
  by (simp add: enable_parse_args_def no_args_def to_namespace_def)

lemma devel_parse_both:
  "devel_parse_args [OptName (ascii ''Nano''), OptAddress (ascii ''AA:BB''),
                     Positional (ascii ''2A58''), Positional (ascii ''2A59'')] = Inl 2"
  by (simp add: devel_parse_args_def no_args_def)

lemma devel_parse_neither:
  "devel_parse_args [Positional (ascii ''2A58''), Positional (ascii ''2A59'')] = Inl 2"
  by (simp add: devel_parse_args_def no_args_def)

lemma enable_main_not_found:
  assumes "by_name env device_name (VBool False) = None"
  shows "enable_main env U l n device_name led st
         = (Returned, st\<lparr>trace := trace st @ [PrintScanning, FindDeviceByName device_name,
                                               PrintDeviceNotFound device_name]\<rparr>)"
  using assms by (simp add: enable_main_def emit_def)

lemma main_not_found:
  assumes "(if truthy address then by_address env address use_bdaddr
            else by_name env name use_bdaddr) = None"
  shows "main env l ts name address characteristic led_characteristic use_bdaddr st
         = (Returned,
            st\<lparr>trace := trace st @
                 [LogStartingScan,
                  if truthy address then FindDeviceByAddress address else FindDeviceByName name,
                  if truthy address then LogCouldNotFindAddress address
                  else LogCouldNotFindName name]\<rparr>)"
  using assms by (cases "truthy address") (simp_all add: main_def emit_def)

lemma enable_parse_sample:
  "enable_parse_args [OptName (ascii ''Nano''), Positional (ascii ''2A58''), Positional (ascii ''2A59'')]
   = Inr \<lparr>arg_name = Some (ascii ''Nano''), arg_address = None, arg_macos_use_bdaddr = False,
          arg_characteristic = ascii ''2A58'', arg_led_characteristic = ascii ''2A59'',
          arg_debug = False\<rparr>"
  by (simp add: enable_parse_args_def no_args_def to_namespace_def)

lemma decode_BLINK_e:
  "decode (''BLINK_'' @ [CHR 0xC3, CHR 0xA9]) = Some (ascii ''BLINK_'' @ [233])"
  by (simp add: decode_def ascii_def is_cont_def)

lemma contains_BLINK_e: "contains (ascii ''BLINK'') (ascii ''BLINK_'' @ [233])"
  by (simp add: ascii_def)

subsection \<open>The threshold rule\<close>

text \<open>
  C1.  A payload of six comma-separated decimal fields is parsed in the order
  \<open>gx, gy, gz, ax, ay, az\<close>, each field to the binary64 value nearest to it, and
  the command written to the LED characteristic is \<^verbatim>\<open>BLINK_1S\<close> when \<open>gx > 0.50\<close>
  and \<^verbatim>\<open>BLINK_5S\<close> otherwise (the write going through).  The payload
  \<^verbatim>\<open>0.60,0,0,0,0,0\<close> gives \<^verbatim>\<open>BLINK_1S\<close> and \<^verbatim>\<open>0.10,0,0,0,0,0\<close> gives
  \<^verbatim>\<open>BLINK_5S\<close>.
\<close>

theorem six_field_payload_threshold:
  assumes "list_all field_ok [gx, gy, gz, ax, ay, az]" "l (attempts st)"
  shows "try_body U l led (payload [gx, gy, gz, ax, ay, az]) st =
           (None, st\<lparr>trace := trace st @
                      [PrintParsedIMU (field_value gx) (field_value gy) (field_value gz)
                         (field_value ax) (field_value ay) (field_value az),
                       GattWrite led (if float_gt (field_value gx) threshold then ''BLINK_1S''
                                      else ''BLINK_5S''),
                       PrintSentCommand (if float_gt (field_value gx) threshold
                                         then ascii ''BLINK_1S'' else ascii ''BLINK_5S'')],
                     attempts := Suc (attempts st)\<rparr>)"
proof -
  have "map (float U) (split 44 (payload [gx, gy, gz, ax, ay, az]))
        = map Some [field_value gx, field_value gy, field_value gz,
                    field_value ax, field_value ay, field_value az]"
    using payload_floats [OF assms(1), of U] by simp
  with payload_no_keyword [OF assms(1)] show ?thesis
    using assms(2) by (rule try_body_reading)
qed

theorem six_field_payload_threshold_witness:
  "try_body ascii_only up (VStr (ascii ''2A59'')) (ascii ''0.60,0,0,0,0,0'') initial =
     (None, initial\<lparr>trace :=
               [PrintParsedIMU (Finite (5404319552844595 / 9007199254740992)) (Finite 0)
                  (Finite 0) (Finite 0) (Finite 0) (Finite 0),
                GattWrite (VStr (ascii ''2A59'')) ''BLINK_1S'',
                PrintSentCommand (ascii ''BLINK_1S'')],
             attempts := 1\<rparr>)
   \<and> try_body ascii_only up (VStr (ascii ''2A59'')) (ascii ''0.10,0,0,0,0,0'') initial =
     (None, initial\<lparr>trace :=
               [PrintParsedIMU (Finite (7205759403792794 / 72057594037927936)) (Finite 0)
                  (Finite 0) (Finite 0) (Finite 0) (Finite 0),
                GattWrite (VStr (ascii ''2A59'')) ''BLINK_5S'',
                PrintSentCommand (ascii ''BLINK_5S'')],
             attempts := 1\<rparr>)"
proof -
  have l: "up (attempts initial)" by (simp add: up_def)
  have g1: "float_gt (Finite (5404319552844595 / 9007199254740992)) threshold"
    by (simp add: threshold_def)
  have g2: "\<not> float_gt (Finite (7205759403792794 / 72057594037927936)) threshold"
    by (simp add: threshold_def)
  note t = six_field_payload_threshold
    [where l = up and st = initial and U = ascii_only and led = "VStr (ascii ''2A59'')"]
  from t [OF ok1 l] t [OF ok2 l] show ?thesis
    unfolding p1 p2 v0 v1 v2 using g1 g2 by (simp add: initial_def)
qed

subsection \<open>Commands and readings\<close>

text \<open>
  C5.  A message taken from the queue that holds the keyword \<^verbatim>\<open>BLINK\<close> is a command:
  it is not parsed (the turn is the same whatever \<^verbatim>\<open>float\<close> and its tables are), and
  its UTF-8 octets are written to the LED characteristic as they are; for a message
  that the handler decoded from a notification these are the octets of the
  notification.  Any other message is parsed as six comma-separated floats: when the
  split gives six tokens and \<^verbatim>\<open>float\<close> accepts each, the values are taken in this
  order and the command chosen from the first is written; otherwise the turn ends in
  a \<^verbatim>\<open>ValueError\<close> with nothing written.  A payload of six decimal fields holds no
  keyword and is parsed to the values of its fields.
\<close>

theorem command_keyword_routing:
  "(contains (ascii ''BLINK'') message \<longrightarrow>
      (\<forall>U'. try_body U' l led message st = try_body U l led message st)
      \<and> (\<forall>data. (encode message = Some data \<or> decode data = Some message) \<longrightarrow>
             l (attempts st) \<longrightarrow>
             try_body U l led message st =
               (None, st\<lparr>trace := trace st @ [PrintReceivedCommand message,
                                              GattWrite led data, PrintSentCommand message],
                         attempts := Suc (attempts st)\<rparr>)))
   \<and> (\<not> contains (ascii ''BLINK'') message \<longrightarrow>
        (\<forall>gx gy gz ax ay az.
            map (float U) (split 44 message) = map Some [gx, gy, gz, ax, ay, az] \<longrightarrow>
            l (attempts st) \<longrightarrow>
            try_body U l led message st =
              (None, st\<lparr>trace := trace st @
                         [PrintParsedIMU gx gy gz ax ay az,
                          GattWrite led (if float_gt gx threshold then ''BLINK_1S''
                                         else ''BLINK_5S''),
                          PrintSentCommand (if float_gt gx threshold then ascii ''BLINK_1S''
                                            else ascii ''BLINK_5S'')],
                        attempts := Suc (attempts st)\<rparr>))
        \<and> ((length (split 44 message) \<noteq> 6 \<or> (\<exists>t\<in>set (split 44 message). float U t = None)) \<longrightarrow>
             (\<exists>e. is_ValueError e \<and> try_body U l led message st = (Some e, st))))
   \<and> (list_all field_ok [fx, fy, fz, fa, fb, fc] \<longrightarrow>
        \<not> contains (ascii ''BLINK'') (payload [fx, fy, fz, fa, fb, fc])
        \<and> map (float U) (split 44 (payload [fx, fy, fz, fa, fb, fc]))
            = map Some [field_value fx, field_value fy, field_value fz,
                        field_value fa, field_value fb, field_value fc])"
proof (intro conjI impI allI)
  fix U' assume "contains (ascii ''BLINK'') message"
  then show "try_body U' l led message st = try_body U l led message st"
    by (simp add: try_body_def)
next
  fix data
  assume c: "contains (ascii ''BLINK'') message"
    and d: "encode message = Some data \<or> decode data = Some message" and l: "l (attempts st)"
  from d have "encode message = Some data" using encode_decode by blast
  with c show "try_body U l led message st =
               (None, st\<lparr>trace := trace st @ [PrintReceivedCommand message,
                                              GattWrite led data, PrintSentCommand message],
                         attempts := Suc (attempts st)\<rparr>)"
    using l by (rule try_body_command [where l = l and st = st])
next
  fix gx gy gz ax ay az
  assume "\<not> contains (ascii ''BLINK'') message"
    "map (float U) (split 44 message) = map Some [gx, gy, gz, ax, ay, az]" "l (attempts st)"
  then show "try_body U l led message st =
              (None, st\<lparr>trace := trace st @
                         [PrintParsedIMU gx gy gz ax ay az,
                          GattWrite led (if float_gt gx threshold then ''BLINK_1S''
                                         else ''BLINK_5S''),
                          PrintSentCommand (if float_gt gx threshold then ascii ''BLINK_1S''
                                            else ascii ''BLINK_5S'')],
                        attempts := Suc (attempts st)\<rparr>)"
    by (rule try_body_reading [where l = l and st = st])
next
  assume "\<not> contains (ascii ''BLINK'') message"
    "length (split 44 message) \<noteq> 6 \<or> (\<exists>t\<in>set (split 44 message). float U t = None)"
  then show "\<exists>e. is_ValueError e \<and> try_body U l led message st = (Some e, st)"
    by (rule try_body_malformed)
next
  assume "list_all field_ok [fx, fy, fz, fa, fb, fc]"
  then show "\<not> contains (ascii ''BLINK'') (payload [fx, fy, fz, fa, fb, fc])"
    by (rule payload_no_keyword)
next
  assume "list_all field_ok [fx, fy, fz, fa, fb, fc]"
  from payload_floats [OF this, of U]
  show "map (float U) (split 44 (payload [fx, fy, fz, fa, fb, fc]))
            = map Some [field_value fx, field_value fy, field_value fz,
                        field_value fa, field_value fb, field_value fc]"
    by simp
qed

theorem command_keyword_routing_witness:
  "try_body ascii_only up (VStr (ascii ''2A59'')) (ascii ''BLINK_'' @ [233]) initial =
     (None, initial\<lparr>trace := [PrintReceivedCommand (ascii ''BLINK_'' @ [233]),
                               GattWrite (VStr (ascii ''2A59'')) (''BLINK_'' @ [CHR 0xC3, CHR 0xA9]),
                               PrintSentCommand (ascii ''BLINK_'' @ [233])],
                     attempts := 1\<rparr>)
   \<and> try_body ascii_only up (VStr (ascii ''2A59'')) (ascii ''0.60,0,0,0,0,0'') initial =
     (None, initial\<lparr>trace :=
               [PrintParsedIMU (Finite (5404319552844595 / 9007199254740992)) (Finite 0)
                  (Finite 0) (Finite 0) (Finite 0) (Finite 0),
                GattWrite (VStr (ascii ''2A59'')) ''BLINK_1S'',
                PrintSentCommand (ascii ''BLINK_1S'')],
             attempts := 1\<rparr>)
   \<and> (\<exists>e. is_ValueError e
          \<and> try_body ascii_only up (VStr (ascii ''2A59'')) (ascii ''1,2,3'') initial
              = (Some e, initial))"
proof -
  note t = command_keyword_routing
    [where l = up and st = initial and U = ascii_only and led = "VStr (ascii ''2A59'')"]
  have l: "up (attempts initial)" by (simp add: up_def)
  have a: "try_body ascii_only up (VStr (ascii ''2A59'')) (ascii ''BLINK_'' @ [233]) initial =
     (None, initial\<lparr>trace := [PrintReceivedCommand (ascii ''BLINK_'' @ [233]),
                               GattWrite (VStr (ascii ''2A59'')) (''BLINK_'' @ [CHR 0xC3, CHR 0xA9]),
                               PrintSentCommand (ascii ''BLINK_'' @ [233])],
                     attempts := 1\<rparr>)"
    using t [of "ascii ''BLINK_'' @ [233]", THEN conjunct1, THEN mp, OF contains_BLINK_e,
             THEN conjunct2, THEN spec, THEN mp, OF disjI2, OF decode_BLINK_e, THEN mp, OF l]
    by (simp add: initial_def)
  note r = t [where fx = "(False, [0], [6, 0])" and fy = "(False, [0], [])"
      and fz = "(False, [0], [])" and fa = "(False, [0], [])" and fb = "(False, [0], [])"
      and fc = "(False, [0], [])" and message = "ascii ''0.60,0,0,0,0,0''",
      unfolded p1 v0 v1]
  from r [THEN conjunct2, THEN conjunct2, THEN mp, OF ok1]
  have n: "\<not> contains (ascii ''BLINK'') (ascii ''0.60,0,0,0,0,0'')"
    and m: "map (float ascii_only) (split 44 (ascii ''0.60,0,0,0,0,0''))
            = map Some [Finite (5404319552844595 / 9007199254740992), Finite 0, Finite 0,
                        Finite 0, Finite 0, Finite 0]"
    by blast+
  have g: "float_gt (Finite (5404319552844595 / 9007199254740992)) threshold"
    by (simp add: threshold_def)
  have b: "try_body ascii_only up (VStr (ascii ''2A59'')) (ascii ''0.60,0,0,0,0,0'') initial =
     (None, initial\<lparr>trace :=
               [PrintParsedIMU (Finite (5404319552844595 / 9007199254740992)) (Finite 0)
                  (Finite 0) (Finite 0) (Finite 0) (Finite 0),
                GattWrite (VStr (ascii ''2A59'')) ''BLINK_1S'',
                PrintSentCommand (ascii ''BLINK_1S'')],
             attempts := 1\<rparr>)"
    using r [THEN conjunct2, THEN conjunct1, THEN mp, OF n, THEN conjunct1, THEN spec, THEN spec,
             THEN spec, THEN spec, THEN spec, THEN spec, THEN mp, OF m, THEN mp, OF l] g
    by (simp add: initial_def)
  have "length (split 44 (ascii ''1,2,3'')) \<noteq> 6" by (simp add: split_123)
  then have c: "\<exists>e. is_ValueError e
          \<and> try_body ascii_only up (VStr (ascii ''2A59'')) (ascii ''1,2,3'') initial
              = (Some e, initial)"
    using t [of "ascii ''1,2,3''"] no_keyword_123 by blast
  from a b c show ?thesis by blast
qed

subsection \<open>Malformed payloads\<close>




subsection \<open>The order of the writes\<close>



subsection \<open>The pause between writes\<close>

text \<open>
  C8, as the code has it.  The loop has no rate limiter.  Every turn, whether it
  wrote, failed or dropped its message, ends with one sleep of one second and makes
  at most one write: the seconds slept after \<open>n\<close> turns are the number of messages
  taken, and two writes are never less than one sleep apart.
\<close>

theorem fixed_sleep_every_turn:
  "slept (trace (process_queue_and_write n U l led st))
     = slept (trace st) + min n (length (items (queue st)))
   \<and> (\<forall>st'. iteration U l led st = Some st' \<longrightarrow>
         (\<exists>evs. trace st' = trace st @ evs @ [Sleep 1] \<and> slept evs = 0
                \<and> length (writes evs) \<le> 1))"
  using loop_queue_slept [of n U l led st] iteration_trace [of U l led st] by blast

theorem fixed_sleep_every_turn_witness:
  "slept (trace (process_queue_and_write 2 ascii_only up (VStr (ascii ''2A59''))
                   (queued [ascii ''BLINK_1S'', ascii ''BLINK_5S'']))) = 2"
  using fixed_sleep_every_turn
    [of 2 ascii_only up "VStr (ascii ''2A59'')" "queued [ascii ''BLINK_1S'', ascii ''BLINK_5S'']"]
  by (simp add: queued_def)

text \<open>
  The claim as stated has a burst under the limit written without added delay.
  Two commands that wait in the queue are written with a sleep of one second between
  them.
\<close>

theorem fixed_sleep_counterexample:
  "trace (process_queue_and_write 2 ascii_only up (VStr (ascii ''2A59''))
            (queued [ascii ''BLINK_1S'', ascii ''BLINK_5S'']))
   = [PrintReceivedCommand (ascii ''BLINK_1S''), GattWrite (VStr (ascii ''2A59'')) ''BLINK_1S'',
      PrintSentCommand (ascii ''BLINK_1S''), Sleep 1,
      PrintReceivedCommand (ascii ''BLINK_5S''), GattWrite (VStr (ascii ''2A59'')) ''BLINK_5S'',
      PrintSentCommand (ascii ''BLINK_5S''), Sleep 1]"
  by (rule burst_trace)

subsection \<open>The queue has no bound\<close>




subsection \<open>The command loop of \<^verbatim>\<open>devel_notifications.py\<close>\<close>

text \<open>
  C10.  In every turn of the command loop that finds an item in the queue, the item
  is logged, encoded and written to the LED characteristic, whatever it is: there is
  no test for a keyword, no parse and no decision.  A notification that the handler
  of the same process has put in the empty queue is written back in the next turn,
  with the very octets that arrived, a string of sensor values like any other.
\<close>

theorem command_loop_writes_verbatim:
  "(items (queue st) = command # rest \<longrightarrow>
      (\<forall>data. encode command = Some data \<longrightarrow> l (attempts st) \<longrightarrow>
         command_loop l led (t # ts) st
         = (case t of
              Cancel \<Rightarrow>
                (LoopCancelled,
                 st\<lparr>queue := (queue st)\<lparr>items := rest\<rparr>,
                    trace := trace st @ [LogSendingCommand command, GattWrite led data],
                    attempts := Suc (attempts st)\<rparr>)
            | Notifications ds \<Rightarrow>
                (case deliver ds
                        (st\<lparr>queue := (queue st)\<lparr>items := rest\<rparr>,
                            attempts := Suc (attempts st),
                            trace := trace st @ [LogSendingCommand command, GattWrite led data,
                                                 Sleep 1]\<rparr>) of
                   Blocks st3 \<Rightarrow> (LoopRunning, st3)
                 | Returns st3 \<Rightarrow> command_loop l led ts st3))))
   \<and> (items (queue st) = [] \<longrightarrow> maxsize (queue st) = 0 \<longrightarrow>
        (\<forall>s. decode d = Some s \<longrightarrow> l (attempts st) \<longrightarrow>
           command_loop l led [Notifications [d], Cancel] st
           = (LoopCancelled,
              st\<lparr>queue := (queue st)\<lparr>items := []\<rparr>,
                 trace := trace st @ [Sleep 1, LogReceivedNotification s, LogSendingCommand s,
                                      GattWrite led d],
                 attempts := Suc (attempts st)\<rparr>)))"
proof (intro conjI impI allI)
  fix data
  assume "items (queue st) = command # rest" "encode command = Some data" "l (attempts st)"
  then show "command_loop l led (t # ts) st
         = (case t of
              Cancel \<Rightarrow>
                (LoopCancelled,
                 st\<lparr>queue := (queue st)\<lparr>items := rest\<rparr>,
                    trace := trace st @ [LogSendingCommand command, GattWrite led data],
                    attempts := Suc (attempts st)\<rparr>)
            | Notifications ds \<Rightarrow>
                (case deliver ds
                        (st\<lparr>queue := (queue st)\<lparr>items := rest\<rparr>,
                            attempts := Suc (attempts st),
                            trace := trace st @ [LogSendingCommand command, GattWrite led data,
                                                 Sleep 1]\<rparr>) of
                   Blocks st3 \<Rightarrow> (LoopRunning, st3)
                 | Returns st3 \<Rightarrow> command_loop l led ts st3))"
    by (rule command_loop_turn [where l = l and st = st])
next
  fix s
  assume a: "items (queue st) = []" "maxsize (queue st) = 0" "decode d = Some s" "l (attempts st)"
  let ?st1 = "st\<lparr>trace := trace st @ [Sleep 1]\<rparr>"
  let ?st2 = "?st1\<lparr>queue := (queue ?st1)\<lparr>items := items (queue ?st1) @ [s]\<rparr>,
                    trace := trace ?st1 @ [LogReceivedNotification s]\<rparr>"
  have m: "maxsize (queue ?st1) = 0" using a(2) by simp
  have h: "handler d ?st1 = Returns ?st2" using m a(3) by (rule handler_unbounded)
  have i: "items (queue ?st2) = s # []" using a(1) by simp
  have l2: "l (attempts ?st2)" using a(4) by simp
  note c = command_loop_turn [where l = l and st = ?st2 and led = led and t = Cancel and ts = "[]",
      OF i encode_decode [OF a(3)] l2]
  have "command_loop l led [Notifications [d], Cancel] st = command_loop l led [Cancel] ?st2"
    using a(1) h by (simp add: empty_def get_def emit_def)
  then show "command_loop l led [Notifications [d], Cancel] st
           = (LoopCancelled,
              st\<lparr>queue := (queue st)\<lparr>items := []\<rparr>,
                 trace := trace st @ [Sleep 1, LogReceivedNotification s, LogSendingCommand s,
                                      GattWrite led d],
                 attempts := Suc (attempts st)\<rparr>)"
    unfolding c by simp
qed

theorem command_loop_writes_verbatim_witness:
  "command_loop up (VStr (ascii ''2A59'')) [Notifications [''0.60,0,0,0,0,0''], Cancel] initial
   = (LoopCancelled,
      \<lparr>queue = \<lparr>maxsize = 0, items = []\<rparr>,
       trace = [Sleep 1, LogReceivedNotification (ascii ''0.60,0,0,0,0,0''),
                LogSendingCommand (ascii ''0.60,0,0,0,0,0''),
                GattWrite (VStr (ascii ''2A59'')) ''0.60,0,0,0,0,0''],
       attempts = 1\<rparr>)"
proof -
  have e: "items (queue initial) = []" and m: "maxsize (queue initial) = 0"
    and l: "up (attempts initial)"
    by (simp_all add: initial_def Queue_def up_def)
  from command_loop_writes_verbatim
    [where st = initial and l = up and led = "VStr (ascii ''2A59'')" and d = "''0.60,0,0,0,0,0''",
     THEN conjunct2, THEN mp, OF e, THEN mp, OF m, THEN spec, THEN mp, OF decode_060,
     THEN mp, OF l]
  show ?thesis by (simp add: initial_def Queue_def)
qed

subsection \<open>The entry point of \<^verbatim>\<open>devel_notifications.py\<close>\<close>

text \<open>
  C9, as the code has it.  When the command line parses, the script calls
  \<^verbatim>\<open>main(args, queue)\<close>, two arguments for six parameters: the call raises
  \<^verbatim>\<open>TypeError\<close> before the body starts, nobody catches it, and nothing has happened
  before: no scan, no connection, no write.  When the command line does not parse,
  \<^verbatim>\<open>argparse\<close> ends the run with \<^verbatim>\<open>SystemExit\<close> before the call.  In either case the
  trace of the run is empty.
\<close>

theorem devel_script_TypeError_when_parsed:
  "(\<forall>args. devel_parse_args argv = Inr args \<longrightarrow>
       devel_entry env l ts args = (Raised TypeError, initial)
       \<and> devel_script env l ts argv = (Uncaught TypeError, []))
   \<and> (\<forall>code. devel_parse_args argv = Inl code \<longrightarrow>
         devel_script env l ts argv = (SystemExit code, []))
   \<and> snd (devel_script env l ts argv) = []"
  by (cases "devel_parse_args argv")
     (simp_all add: devel_script_def devel_entry_def call_main_def initial_def)

theorem devel_script_TypeError_when_parsed_witness:
  "devel_script nobody up []
     [OptName (ascii ''Nano''), Positional (ascii ''2A58''), Positional (ascii ''2A59'')]
   = (Uncaught TypeError, [])
   \<and> status (Uncaught TypeError) = Some 1"
  using devel_script_TypeError_when_parsed
    [where env = nobody and l = up and ts = "[]"
       and argv = "[OptName (ascii ''Nano''), Positional (ascii ''2A58''),
                    Positional (ascii ''2A59'')]"]
    devel_parse_sample
  by simp

text \<open>
  The claim as stated has the script always raise \<^verbatim>\<open>TypeError\<close>.  Run with no
  argument it ends in \<^verbatim>\<open>SystemExit(2)\<close>, run with \<^verbatim>\<open>--help\<close> in \<^verbatim>\<open>SystemExit(0)\<close>:
  no \<^verbatim>\<open>TypeError\<close> is raised.
\<close>

theorem devel_script_counterexample:
  "devel_script nobody up [] [] = (SystemExit 2, [])
   \<and> devel_script nobody up [] [OptHelp] = (SystemExit 0, [])"
  by (simp add: devel_script_def devel_parse_args_def no_args_def)

subsection \<open>A device that is not found\<close>

text \<open>
  C6, as the code has it.  When the scanner finds no device, \<^verbatim>\<open>main\<close> of
  \<^verbatim>\<open>enable_response.py\<close> prints that and returns, and \<^verbatim>\<open>main\<close> of
  \<^verbatim>\<open>devel_notifications.py\<close> logs that and returns; neither raises.  The script
  \<^verbatim>\<open>enable_response.py\<close> then runs to its end, once the child has ended, and the
  exit status of a script that runs to its end is 0.
\<close>

theorem device_not_found_returns:
  "(by_name env device_name (VBool False) = None \<longrightarrow>
      enable_main env U l n device_name led st
      = (Returned, st\<lparr>trace := trace st @ [PrintScanning, FindDeviceByName device_name,
                                            PrintDeviceNotFound device_name]\<rparr>))
   \<and> ((if truthy address then by_address env address use_bdaddr
        else by_name env name use_bdaddr) = None \<longrightarrow>
        main env l ts name address characteristic led_characteristic use_bdaddr st
        = (Returned,
           st\<lparr>trace := trace st @
                [LogStartingScan,
                 if truthy address then FindDeviceByAddress address else FindDeviceByName name,
                 if truthy address then LogCouldNotFindAddress address
                 else LogCouldNotFindName name]\<rparr>))
   \<and> (\<forall>args. enable_parse_args argv = Inr args \<longrightarrow>
         by_name env (opt_str (arg_name args)) (VBool False) = None \<longrightarrow> child \<noteq> Looping \<longrightarrow>
         fst (enable_script env U l n feed child argv) = Completed)
   \<and> status Completed = Some 0"
proof (intro conjI impI allI)
  assume "by_name env device_name (VBool False) = None"
  then show "enable_main env U l n device_name led st
      = (Returned, st\<lparr>trace := trace st @ [PrintScanning, FindDeviceByName device_name,
                                            PrintDeviceNotFound device_name]\<rparr>)"
    by (rule enable_main_not_found)
next
  assume "(if truthy address then by_address env address use_bdaddr
        else by_name env name use_bdaddr) = None"
  then show "main env l ts name address characteristic led_characteristic use_bdaddr st
        = (Returned,
           st\<lparr>trace := trace st @
                [LogStartingScan,
                 if truthy address then FindDeviceByAddress address else FindDeviceByName name,
                 if truthy address then LogCouldNotFindAddress address
                 else LogCouldNotFindName name]\<rparr>)"
    by (rule main_not_found)
next
  fix args
  assume "enable_parse_args argv = Inr args"
    "by_name env (opt_str (arg_name args)) (VBool False) = None" "child \<noteq> Looping"
  then show "fst (enable_script env U l n feed child argv) = Completed"
    by (simp add: enable_script_def enable_main_not_found)
next
  show "status Completed = Some 0" by simp
qed

theorem device_not_found_returns_witness:
  "enable_main nobody ascii_only up 0 (VStr (ascii ''Nano'')) (VStr (ascii ''2A59'')) initial
   = (Returned, initial\<lparr>trace := [PrintScanning, FindDeviceByName (VStr (ascii ''Nano'')),
                                   PrintDeviceNotFound (VStr (ascii ''Nano''))]\<rparr>)"
proof -
  have n: "by_name nobody (VStr (ascii ''Nano'')) (VBool False) = None" by (simp add: nobody_def)
  from device_not_found_returns
    [where env = nobody and device_name = "VStr (ascii ''Nano'')" and U = ascii_only and l = up
       and n = 0 and led = "VStr (ascii ''2A59'')" and st = initial,
     THEN conjunct1, THEN mp, OF n]
  show ?thesis by (simp add: initial_def)
qed

text \<open>
  The claim as stated has the process end with a status other than 0.  With no
  device in reach, \<^verbatim>\<open>enable_response.py --name Nano 2A58 2A59\<close> prints that the device
  was not found and runs to its end, status 0; its child returns as well.
\<close>

theorem device_not_found_counterexample:
  "enable_script nobody ascii_only up 0 [] Returned
     [OptName (ascii ''Nano''), Positional (ascii ''2A58''), Positional (ascii ''2A59'')]
   = (Completed, [PrintScanning, FindDeviceByName (VStr (ascii ''Nano'')),
                  PrintDeviceNotFound (VStr (ascii ''Nano''))])
   \<and> status Completed = Some 0
   \<and> fst (run_notifications nobody up []
            \<lparr>arg_name = Some (ascii ''Nano''), arg_address = None, arg_macos_use_bdaddr = False,
             arg_characteristic = ascii ''2A58'', arg_led_characteristic = ascii ''2A59'',
             arg_debug = False\<rparr> initial) = Returned"
  by (simp add: enable_script_def enable_parse_sample enable_main_def nobody_def emit_def
      initial_def Queue_def run_notifications_def call_main_def main_def)

subsection \<open>The device selector on the command line\<close>

text \<open>
  C7, as the code has it.  \<^verbatim>\<open>devel_notifications.py\<close> accepts a command line only
  with exactly one of \<^verbatim>\<open>--name\<close> and \<^verbatim>\<open>--address\<close>.  \<^verbatim>\<open>enable_response.py\<close> has no
  such group: it accepts a command line only with \<^verbatim>\<open>--name\<close>, and \<^verbatim>\<open>--address\<close> may
  come with it or not.
\<close>

theorem selector_flags:
  "(\<forall>args. devel_parse_args argv = Inr args \<longrightarrow>
       ((arg_name args = None) \<noteq> (arg_address args = None))
       \<and> ((arg_name args \<noteq> None) = (\<exists>v. OptName v \<in> set argv))
       \<and> ((arg_address args \<noteq> None) = (\<exists>v. OptAddress v \<in> set argv)))
   \<and> (\<forall>args. enable_parse_args argv = Inr args \<longrightarrow>
         arg_name args \<noteq> None
         \<and> (\<exists>v. OptName v \<in> set argv)
         \<and> ((arg_address args \<noteq> None) = (\<exists>v. OptAddress v \<in> set argv)))"
  using devel_parse_flags [of argv] enable_parse_flags [of argv] by blast

theorem selector_flags_witness:
  "arg_name \<lparr>arg_name = Some (ascii ''Nano''), arg_address = None, arg_macos_use_bdaddr = False,
             arg_characteristic = ascii ''2A58'', arg_led_characteristic = ascii ''2A59'',
             arg_debug = False\<rparr> \<noteq> None
   \<and> (\<exists>v. OptName v \<in> set [OptName (ascii ''Nano''), OptAddress (ascii ''AA:BB''),
                              Positional (ascii ''2A58''), Positional (ascii ''2A59'')])
   \<and> devel_parse_args [OptName (ascii ''Nano''), OptAddress (ascii ''AA:BB''),
                        Positional (ascii ''2A58''), Positional (ascii ''2A59'')] = Inl 2
   \<and> devel_parse_args [Positional (ascii ''2A58''), Positional (ascii ''2A59'')] = Inl 2"
proof -
  from selector_flags
    [of "[OptName (ascii ''Nano''), Positional (ascii ''2A58''), Positional (ascii ''2A59'')]",
     THEN conjunct1, THEN spec, THEN mp, OF devel_parse_sample]
  have a: "arg_name \<lparr>arg_name = Some (ascii ''Nano''), arg_address = None,
             arg_macos_use_bdaddr = False,
             arg_characteristic = ascii ''2A58'', arg_led_characteristic = ascii ''2A59'',
             arg_debug = False\<rparr> \<noteq> None"
    by simp
  from selector_flags
    [of "[OptName (ascii ''Nano''), OptAddress (ascii ''AA:BB''),
          Positional (ascii ''2A58''), Positional (ascii ''2A59'')]",
     THEN conjunct2, THEN spec, THEN mp, OF enable_parse_both]
  have b: "\<exists>v. OptName v \<in> set [OptName (ascii ''Nano''), OptAddress (ascii ''AA:BB''),
                              Positional (ascii ''2A58''), Positional (ascii ''2A59'')]"
    by blast
  from a b devel_parse_both devel_parse_neither show ?thesis by blast
qed

text \<open>
  The claim as stated has the two flags exclusive in both scripts.
  \<^verbatim>\<open>enable_response.py\<close> accepts \<^verbatim>\<open>--name\<close> together with \<^verbatim>\<open>--address\<close>, and refuses
  \<^verbatim>\<open>--address\<close> alone.
\<close>

theorem selector_flags_counterexample:
  "enable_parse_args [OptName (ascii ''Nano''), OptAddress (ascii ''AA:BB''),
                      Positional (ascii ''2A58''), Positional (ascii ''2A59'')]
   = Inr \<lparr>arg_name = Some (ascii ''Nano''), arg_address = Some (ascii ''AA:BB''),
          arg_macos_use_bdaddr = False, arg_characteristic = ascii ''2A58'',
          arg_led_characteristic = ascii ''2A59'', arg_debug = False\<rparr>
   \<and> enable_parse_args [OptAddress (ascii ''AA:BB''), Positional (ascii ''2A58''),
                        Positional (ascii ''2A59'')] = Inl 2"
  using enable_parse_both enable_parse_address_only by (rule conjI)

end
